theory Spec2Isabelle
  imports Main "HOL-Library.AList"
begin

section \<open>Clock and calendar\<close>

text \<open>
  Every \<^verbatim>\<open>datetime\<close> of \<^verbatim>\<open>vacation.py\<close> is aware and lives in the one fixed zone
  \<^verbatim>\<open>MSK = timezone(timedelta(hours=3))\<close>. Such a value is modelled by the number of
  microseconds that its local (MSK) wall-clock reading lies after 0001-01-01 00:00:00, the
  origin of Python's proleptic Gregorian ordinal (day 1). Comparison of two datetimes is
  comparison of these numbers, adding a \<^verbatim>\<open>timedelta\<close> is addition, and the stored ISO
  strings (\<^verbatim>\<open>isoformat\<close> / \<^verbatim>\<open>fromisoformat\<close>) round-trip the value, so a stored field is
  the datetime itself. Python only represents the years 1 to 9999.
\<close>

type_synonym datetime = int

definition usec_per_day :: int where
  "usec_per_day = 86400000000"

definition usec_per_hour :: int where
  "usec_per_hour = 3600000000"

text \<open>\<^verbatim>\<open>dt.date()\<close>, as the ordinal of the calendar day (\<^verbatim>\<open>date.toordinal()\<close>);
  \<^verbatim>\<open>(a.date() - b.date()).days\<close> is the difference of two ordinals.\<close>

definition date :: "datetime \<Rightarrow> int" where
  "date dt = dt div usec_per_day + 1"

definition timedelta_days :: "int \<Rightarrow> int" where
  "timedelta_days n = n * usec_per_day"

definition timedelta_hours :: "int \<Rightarrow> int" where
  "timedelta_hours n = n * usec_per_hour"

text \<open>\<^verbatim>\<open>int(dt.timestamp())\<close>: whole seconds since 1970-01-01 00:00:00 UTC, which is 03:00
  local time on ordinal day 719163; \<^verbatim>\<open>int\<close> truncates towards zero.\<close>

definition unix_epoch :: datetime where
  "unix_epoch = 719162 * usec_per_day + 3 * usec_per_hour"

definition int_timestamp :: "datetime \<Rightarrow> int" where
  "int_timestamp dt =
     (let us = dt - unix_epoch
      in if 0 \<le> us then us div 1000000 else - ((- us) div 1000000))"

text \<open>The calendar of the standard library (\<^verbatim>\<open>datetime._ord2ymd\<close>): year and month of
  an ordinal day, which is all that \<^verbatim>\<open>strftime("%Y-%m")\<close> reads.\<close>

definition days_before_month :: "int list" where
  "days_before_month = [-1, 0, 31, 59, 90, 120, 151, 181, 212, 243, 273, 304, 334]"

definition ord2ym :: "int \<Rightarrow> int \<times> int" where
  "ord2ym ordinal =
     (let n = ordinal - 1;
          n400 = n div 146097; n = n mod 146097;
          n100 = n div 36524; n = n mod 36524;
          n4 = n div 1461; n = n mod 1461;
          n1 = n div 365; n = n mod 365;
          year = n400 * 400 + 1 + n100 * 100 + n4 * 4 + n1
      in if n1 = 4 \<or> n100 = 4 then (year - 1, 12)
         else
           let leapyear = (n1 = 3 \<and> (n4 \<noteq> 24 \<or> n100 = 3));
               month = (n + 50) div 32;
               preceding = days_before_month ! nat month
                           + (if month > 2 \<and> leapyear then 1 else 0)
           in if preceding > n then (year, month - 1) else (year, month))"

text \<open>Decimal output, as \<^verbatim>\<open>str\<close> and the zero-padded fields of \<^verbatim>\<open>strftime\<close> give it.\<close>

definition digit_char :: "nat \<Rightarrow> char" where
  "digit_char d = ''0123456789'' ! d"

fun str_nat :: "nat \<Rightarrow> string" where
  "str_nat n = (if n < 10 then [digit_char n] else str_nat (n div 10) @ [digit_char (n mod 10)])"

declare str_nat.simps [simp del]

definition str_int :: "int \<Rightarrow> string" where
  "str_int i = (if i < 0 then CHR ''-'' # str_nat (nat (- i)) else str_nat (nat i))"

definition zero_pad :: "nat \<Rightarrow> string \<Rightarrow> string" where
  "zero_pad w s = replicate (w - length s) CHR ''0'' @ s"

text \<open>\<^verbatim>\<open>get_month_key(date)\<close> with the clock reading passed in:
  \<^verbatim>\<open>date.strftime("%Y-%m")\<close>, the year padded to four digits and the month to two (the
  C library of some platforms leaves a year below 1000 unpadded).\<close>

definition get_month_key :: "datetime \<Rightarrow> string" where
  "get_month_key dt =
     (case ord2ym (date dt) of
        (y, m) \<Rightarrow> zero_pad 4 (str_int y) @ ''-'' @ zero_pad 2 (str_int m))"

section \<open>Configuration\<close>

text \<open>
  The per-guild dictionary that \<^verbatim>\<open>get_config\<close> returns. \<^verbatim>\<open>get_config\<close> copies the default
  entry for an unknown guild, so every key read below is present; a \<^verbatim>\<open>vacation_role_id\<close>
  of \<^verbatim>\<open>None\<close> is \<open>None\<close>.
\<close>

record config =
  vacation_role_id :: "int option"
  allowed_roles :: "int list"
  banned_roles :: "int list"
  min_rank_roles :: "int list"
  max_vacations_per_month :: int
  auto_close_hours :: int

text \<open>\<^verbatim>\<open>can_vote(member, guild_id)\<close>, which the two review buttons ask before they open the
  approval or denial form; \<open>roles\<close> are the ids of \<^verbatim>\<open>member.roles\<close>.\<close>

definition can_vote :: "config \<Rightarrow> int list \<Rightarrow> bool" where
  "can_vote cfg roles = list_ex (\<lambda>r. r \<in> set (allowed_roles cfg)) roles"

section \<open>Usage ledger\<close>

text \<open>
  \<^verbatim>\<open>vacation_stats\<close>: user id (the dictionary key is \<^verbatim>\<open>str(user_id)\<close>) to month key to
  the month's counters.
\<close>

record month_stats =
  count :: int
  total_days :: int
  last_vacation :: "datetime option"

type_synonym stats = "int \<rightharpoonup> (string \<rightharpoonup> month_stats)"

datatype action = Taken | Cancelled_action

definition new_month_stats :: month_stats where
  "new_month_stats = \<lparr>count = 0, total_days = 0, last_vacation = None\<rparr>"

text \<open>The two branches of \<^verbatim>\<open>update_vacation_stats\<close> on the bucket \<^verbatim>\<open>stats\<close>.\<close>

definition apply_action :: "datetime \<Rightarrow> int \<Rightarrow> action \<Rightarrow> month_stats \<Rightarrow> month_stats" where
  "apply_action now duration act s =
     (case act of
        Taken \<Rightarrow>
          s\<lparr>count := count s + 1,
            total_days := total_days s + duration,
            last_vacation := Some now\<rparr>
      | Cancelled_action \<Rightarrow>
          (let s1 = (if count s > 0 then s\<lparr>count := count s - 1\<rparr> else s)
           in if total_days s1 \<ge> duration
              then s1\<lparr>total_days := total_days s1 - duration\<rparr> else s1))"

text \<open>\<^verbatim>\<open>update_vacation_stats(user_id, duration_days, action)\<close>; \<open>now\<close> is the reading of
  \<^verbatim>\<open>datetime.now(MSK)\<close> inside the call. A missing user or month entry is created with
  zero counters first.\<close>

definition update_vacation_stats ::
  "datetime \<Rightarrow> int \<Rightarrow> int \<Rightarrow> action \<Rightarrow> stats \<Rightarrow> stats" where
  "update_vacation_stats now uid duration act vs =
     (let month_key = get_month_key now;
          user = (case vs uid of None \<Rightarrow> Map.empty | Some u \<Rightarrow> u);
          s = (case user month_key of None \<Rightarrow> new_month_stats | Some b \<Rightarrow> b)
      in vs(uid \<mapsto> user(month_key \<mapsto> apply_action now duration act s)))"

text \<open>The bucket a reader sees: \<^verbatim>\<open>vacation_stats.get(uid, {}).get(key, {})\<close> with the
  counters defaulting to 0.\<close>

definition bucket :: "stats \<Rightarrow> int \<Rightarrow> string \<Rightarrow> month_stats" where
  "bucket vs uid key =
     (case vs uid of
        None \<Rightarrow> new_month_stats
      | Some u \<Rightarrow> (case u key of None \<Rightarrow> new_month_stats | Some b \<Rightarrow> b))"

section \<open>Eligibility\<close>

datatype message = No_message | Position_banned | Rank_too_low | Month_limit_reached int

text \<open>
  \<^verbatim>\<open>can_take_vacation(member, guild_id)\<close>: \<open>roles\<close> are the ids of \<^verbatim>\<open>member.roles\<close>,
  \<open>uid\<close> is \<^verbatim>\<open>member.id\<close>, \<open>cfg\<close> the guild's configuration, \<open>now\<close> the clock reading of
  \<^verbatim>\<open>get_month_key()\<close>. The three refusal texts are the constructors of \<open>message\<close>
  (position not allowed, rank too low, monthly limit with the limit shown).
\<close>

definition can_take_vacation ::
  "config \<Rightarrow> stats \<Rightarrow> datetime \<Rightarrow> int \<Rightarrow> int list \<Rightarrow> bool \<times> message" where
  "can_take_vacation cfg vs now uid roles =
     (if list_ex (\<lambda>r. r \<in> set (banned_roles cfg)) roles then (False, Position_banned)
      else if min_rank_roles cfg \<noteq> [] \<and> \<not> list_ex (\<lambda>r. r \<in> set (min_rank_roles cfg)) roles
      then (False, Rank_too_low)
      else
        let vacations_taken = count (bucket vs uid (get_month_key now));
            max_per_month = max_vacations_per_month cfg
        in if vacations_taken \<ge> max_per_month then (False, Month_limit_reached max_per_month)
           else (True, No_message))"

section \<open>Requests\<close>

text \<open>
  The six values the \<^verbatim>\<open>"status"\<close> key takes: \<^verbatim>\<open>"pending"\<close>, \<^verbatim>\<open>"approved"\<close>, \<^verbatim>\<open>"denied"\<close>,
  \<^verbatim>\<open>"early_return"\<close>, \<^verbatim>\<open>"completed"\<close> and \<^verbatim>\<open>"cancelled"\<close>. The code has no status of its
  own for a vacation that has begun: it stays \<^verbatim>\<open>"approved"\<close> from the decision until it
  ends.
\<close>

datatype status = Pending | Approved | Denied | Early_return | Completed | Cancelled

text \<open>
  The request dictionary built in \<^verbatim>\<open>VacationReasonModal.callback\<close>, with the keys later
  transitions add (\<^verbatim>\<open>early_return_at\<close>, \<^verbatim>\<open>reminder_sent\<close>, \<^verbatim>\<open>auto_closed\<close>,
  \<^verbatim>\<open>force_recalled\<close>, ...): a key that is absent reads as \<open>None\<close> or \<open>False\<close>, as
  \<^verbatim>\<open>data.get\<close> reads it. The keys that only address chat messages (\<^verbatim>\<open>user_name\<close>,
  \<^verbatim>\<open>message_id\<close>, \<^verbatim>\<open>thread_id\<close>, \<^verbatim>\<open>log_message_id\<close>) are left out.
\<close>

record vacation =
  request_id :: string
  user_id :: int
  start_date :: datetime
  end_date :: datetime
  duration_days :: int
  reason :: string
  contact :: string
  status :: status
  created_at :: datetime
  guild_id :: int
  reviewed_by :: "int option"
  reviewed_at :: "datetime option"
  review_comment :: "string option"
  deny_reason :: "string option"
  auto_close_at :: datetime
  saved_roles :: "int list"
  early_return_at :: "datetime option"
  early_return_by :: "int option"
  reminder_sent :: bool
  auto_closed :: bool
  auto_closed_at :: "datetime option"
  force_recalled :: bool
  force_recalled_by :: "int option"
  force_recalled_at :: "datetime option"

text \<open>The review record of a request: reviewer, decision time, and the comment of an
  approval or the reason of a denial.\<close>

definition review :: "vacation \<Rightarrow> (int \<times> datetime \<times> string option \<times> string option) option" where
  "review d =
     (case (reviewed_by d, reviewed_at d) of
        (Some r, Some t) \<Rightarrow> Some (r, t, review_comment d, deny_reason d)
      | _ \<Rightarrow> None)"

section \<open>The stores and the guild\<close>

text \<open>
  The calls the module makes on the chat platform that the lifecycle depends on:
  \<^verbatim>\<open>member.add_roles\<close> and \<^verbatim>\<open>member.remove_roles\<close> (guild, member, roles, and which of the
  four \<^verbatim>\<open>reason=\<close> texts was given) and \<^verbatim>\<open>send_vacation_log\<close> (guild, action, request id).
\<close>

datatype role_reason = Vacation_start | Vacation_end | Roles_restored | Early_exit

datatype call =
    Add_roles int int "int list" role_reason
  | Remove_roles int int int role_reason
  | Vacation_log int string string

text \<open>
  The module-level dictionaries and the part of the platform the module reads and
  writes. A Python dictionary keeps insertion order and the scheduler iterates over it, so
  \<^verbatim>\<open>vacation_requests\<close> and \<^verbatim>\<open>vacation_data\<close> are association lists (assignment is
  \<open>AList.update\<close>, \<^verbatim>\<open>del\<close> is \<open>AList.delete\<close>). The values of both stores are dictionary
  objects, and \<^verbatim>\<open>approve_vacation\<close> puts one object into both: \<open>shared\<close> is the set of
  request ids under which the two stores hold the same object, so that a change made to
  that object in place shows in both. After a restart the stores are loaded from their
  files and share nothing. \<open>members\<close> is \<^verbatim>\<open>guild.get_member\<close> with
  the ids of the member's roles, \<open>guild_roles\<close> is \<^verbatim>\<open>guild.get_role\<close> with the role's
  \<^verbatim>\<open>managed\<close> flag; both are keyed by guild id first. The three \<open>_raises\<close> fields say
  whether a platform call for that guild member raises; \<open>calls\<close> records the calls made.
  Private messages to the member (sent inside \<^verbatim>\<open>try/except: pass\<close>) and the rendering
  of lists and embeds change none of these and are not modelled, except for the reminder,
  whose flag is set only when the message went out.
\<close>

record world =
  vacation_requests :: "(string \<times> vacation) list"
  vacation_data :: "(string \<times> vacation) list"
  vacation_stats :: stats
  members :: "int \<times> int \<rightharpoonup> int list"
  guild_roles :: "int \<times> int \<rightharpoonup> bool"
  add_roles_raises :: "int \<times> int \<Rightarrow> bool"
  remove_roles_raises :: "int \<times> int \<Rightarrow> bool"
  send_raises :: "int \<times> int \<Rightarrow> bool"
  calls :: "call list"
  shared :: "string set"

text \<open>
  A request dictionary \<^verbatim>\<open>data\<close> that was taken out of one store under its id and is
  changed in place (\<^verbatim>\<open>data["status"] = ...\<close>): the new value \<open>d'\<close> shows in that store
  and, when the other store holds the same object, there too.
\<close>

definition change_in_requests :: "string \<Rightarrow> vacation \<Rightarrow> world \<Rightarrow> world" where
  "change_in_requests rid d' w =
     (let w1 = w\<lparr>vacation_requests := AList.update rid d' (vacation_requests w)\<rparr>
      in if rid \<in> shared w then w1\<lparr>vacation_data := AList.update rid d' (vacation_data w1)\<rparr>
         else w1)"

definition change_in_data :: "string \<Rightarrow> vacation \<Rightarrow> world \<Rightarrow> world" where
  "change_in_data rid d' w =
     (let w1 = w\<lparr>vacation_data := AList.update rid d' (vacation_data w)\<rparr>
      in if rid \<in> shared w
         then w1\<lparr>vacation_requests := AList.update rid d' (vacation_requests w1)\<rparr>
         else w1)"

definition send_vacation_log :: "int \<Rightarrow> string \<Rightarrow> string \<Rightarrow> world \<Rightarrow> world" where
  "send_vacation_log gid act rid w = w\<lparr>calls := calls w @ [Vacation_log gid act rid]\<rparr>"

text \<open>
  Taking the vacation role away, as written twice in the source (in
  \<^verbatim>\<open>early_return_vacation\<close> and in the end branch of \<^verbatim>\<open>check_vacations\<close>, with different
  \<^verbatim>\<open>reason=\<close> texts): guarded by \<^verbatim>\<open>if vacation_role_id and user\<close> (an id of 0 is falsy),
  then \<^verbatim>\<open>if vacation_role in user.roles\<close>; an exception of \<^verbatim>\<open>remove_roles\<close> is logged and
  swallowed.
\<close>

definition remove_vacation_role :: "role_reason \<Rightarrow> config \<Rightarrow> int \<Rightarrow> int \<Rightarrow> world \<Rightarrow> world" where
  "remove_vacation_role why cfg gid uid w =
     (case members w (gid, uid) of
        None \<Rightarrow> w
      | Some roles \<Rightarrow>
          (case vacation_role_id cfg of
             None \<Rightarrow> w
           | Some vr \<Rightarrow>
               if vr = 0 then w
               else if guild_roles w (gid, vr) \<noteq> None \<and> vr \<in> set roles then
                 let w1 = w\<lparr>calls := calls w @ [Remove_roles gid uid vr why]\<rparr>
                 in if remove_roles_raises w (gid, uid) then w1
                    else w1\<lparr>members := (members w1)((gid, uid) \<mapsto> removeAll vr roles)\<rparr>
               else w))"

text \<open>Giving the saved roles back (\<^verbatim>\<open>if saved_roles and user\<close>), also written twice in
  the source; an exception of \<^verbatim>\<open>add_roles\<close> is logged and swallowed.\<close>

definition restore_saved_roles :: "int \<Rightarrow> int \<Rightarrow> int list \<Rightarrow> world \<Rightarrow> world" where
  "restore_saved_roles gid uid saved w =
     (case members w (gid, uid) of
        None \<Rightarrow> w
      | Some roles \<Rightarrow>
          if saved = [] then w
          else
            let roles_to_add = filter (\<lambda>r. guild_roles w (gid, r) \<noteq> None \<and> r \<notin> set roles) saved
            in if roles_to_add = [] then w
               else
                 let w1 = w\<lparr>calls := calls w @ [Add_roles gid uid roles_to_add Roles_restored]\<rparr>
                 in if add_roles_raises w (gid, uid) then w1
                    else w1\<lparr>members := (members w1)((gid, uid) \<mapsto> roles @ roles_to_add)\<rparr>)"

section \<open>Transitions started by a person\<close>

text \<open>
  What the caller is told. In the source these are the texts passed to
  \<^verbatim>\<open>ephemeral_temp\<close>; a refusal is followed by \<^verbatim>\<open>return\<close> before anything is written.
\<close>

datatype reply =
    Request_not_found
  | Already_reviewed
  | Vacation_approved
  | Vacation_denied
  | No_active_vacation
  | Choose_vacation "(string \<times> vacation) list"
  | Vacation_not_found
  | Returned_early int
  | Already_started
  | Vacation_recalled
  | No_reply

text \<open>
  \<^verbatim>\<open>VacationStartDateModal.select_duration\<close> and \<^verbatim>\<open>VacationReasonModal.callback\<close>. One call
  reads the clock several times within microseconds; here and below a call has one reading
  \<open>now\<close>. \<open>posted\<close> says whether the request message reached the review thread: the
  request is stored before that, the log entry is written only after it. The stored
  dictionary is a new object.
\<close>

definition select_duration :: "datetime \<Rightarrow> int \<Rightarrow> datetime" where
  "select_duration start duration = start + timedelta_days duration"

definition new_request_id :: "int \<Rightarrow> datetime \<Rightarrow> string" where
  "new_request_id author now = str_int author @ ''_'' @ str_int (int_timestamp now)"

definition reason_modal_callback ::
  "datetime \<Rightarrow> int \<Rightarrow> config \<Rightarrow> int \<Rightarrow> datetime \<Rightarrow> int \<Rightarrow> datetime \<Rightarrow> string \<Rightarrow> string
   \<Rightarrow> bool \<Rightarrow> world \<Rightarrow> world" where
  "reason_modal_callback now gid cfg author start duration end_d why contact_info posted w =
     (let rid = new_request_id author now;
          request_data =
            \<lparr>request_id = rid, user_id = author, start_date = start, end_date = end_d,
             duration_days = duration, reason = why, contact = contact_info,
             status = Pending, created_at = now, guild_id = gid,
             reviewed_by = None, reviewed_at = None, review_comment = None,
             deny_reason = None,
             auto_close_at = now + timedelta_hours (auto_close_hours cfg),
             saved_roles = [], early_return_at = None, early_return_by = None,
             reminder_sent = False, auto_closed = False, auto_closed_at = None,
             force_recalled = False, force_recalled_by = None, force_recalled_at = None\<rparr>;
          w1 = w\<lparr>vacation_requests := AList.update rid request_data (vacation_requests w),
                 shared := shared w - {rid}\<rparr>
      in if posted then send_vacation_log gid ''apply'' rid w1 else w1)"

text \<open>\<^verbatim>\<open>approve_vacation(inter, request_id, comment)\<close>; \<open>reviewer\<close> is \<^verbatim>\<open>inter.author.id\<close>.
  The dictionary of \<^verbatim>\<open>vacation_requests\<close> is changed in place and then put into
  \<^verbatim>\<open>vacation_data\<close> as well: from here on the two stores share it.\<close>

definition approve_vacation ::
  "datetime \<Rightarrow> int \<Rightarrow> int \<Rightarrow> string \<Rightarrow> string \<Rightarrow> world \<Rightarrow> reply \<times> world" where
  "approve_vacation now gid reviewer rid comment w =
     (case map_of (vacation_requests w) rid of
        None \<Rightarrow> (Request_not_found, w)
      | Some d \<Rightarrow>
          if status d \<noteq> Pending then (Already_reviewed, w)
          else
            let d' = d\<lparr>status := Approved, reviewed_by := Some reviewer,
                       reviewed_at := Some now, review_comment := Some comment\<rparr>;
                w1 = change_in_requests rid d' w;
                w2 = w1\<lparr>vacation_stats :=
                          update_vacation_stats now (user_id d') (duration_days d') Taken
                            (vacation_stats w1)\<rparr>;
                w3 = w2\<lparr>vacation_data := AList.update rid d' (vacation_data w2),
                        shared := insert rid (shared w2)\<rparr>
            in (Vacation_approved, send_vacation_log gid ''approve'' rid w3))"

text \<open>\<^verbatim>\<open>deny_vacation(inter, request_id, reason)\<close>.\<close>

definition deny_vacation ::
  "datetime \<Rightarrow> int \<Rightarrow> int \<Rightarrow> string \<Rightarrow> string \<Rightarrow> world \<Rightarrow> reply \<times> world" where
  "deny_vacation now gid reviewer rid why w =
     (case map_of (vacation_requests w) rid of
        None \<Rightarrow> (Request_not_found, w)
      | Some d \<Rightarrow>
          if status d \<noteq> Pending then (Already_reviewed, w)
          else
            let d' = d\<lparr>status := Denied, reviewed_by := Some reviewer,
                       reviewed_at := Some now, deny_reason := Some why\<rparr>;
                w1 = change_in_requests rid d' w
            in (Vacation_denied, send_vacation_log gid ''deny'' rid w1))"

text \<open>\<^verbatim>\<open>early_return_vacation(inter, request_id, data)\<close>; \<open>author\<close> is
  \<^verbatim>\<open>inter.author.id\<close>, \<open>gid\<close> and \<open>cfg\<close> are \<^verbatim>\<open>inter.guild\<close> and its configuration.
  The changes made to \<^verbatim>\<open>data\<close> in place end in the two writes at the end of the
  function, the deletion from \<^verbatim>\<open>vacation_data\<close> and the assignment to
  \<^verbatim>\<open>vacation_requests\<close>, after which only \<^verbatim>\<open>vacation_requests\<close> holds the object.\<close>

definition early_return_vacation ::
  "datetime \<Rightarrow> int \<Rightarrow> config \<Rightarrow> int \<Rightarrow> string \<Rightarrow> vacation \<Rightarrow> world \<Rightarrow> reply \<times> world" where
  "early_return_vacation now gid cfg author rid d w =
     (let w1 = remove_vacation_role Early_exit cfg gid (user_id d) w;
          w2 = restore_saved_roles gid (user_id d) (saved_roles d) w1;
          d' = d\<lparr>status := Early_return, early_return_at := Some now,
                 early_return_by := Some author\<rparr>;
          days_used = date now - date (start_date d');
          w3 = (if days_used > 0
                then w2\<lparr>vacation_stats :=
                          update_vacation_stats now (user_id d') (duration_days d' - days_used)
                            Cancelled_action (vacation_stats w2)\<rparr>
                else w2);
          w4 = w3\<lparr>vacation_data := AList.delete rid (vacation_data w3)\<rparr>;
          w5 = w4\<lparr>vacation_requests := AList.update rid d' (vacation_requests w4),
                  shared := shared w4 - {rid}\<rparr>
      in (Returned_early days_used, send_vacation_log gid ''early_return'' rid w5))"

text \<open>The search both entry points make in \<^verbatim>\<open>vacation_data\<close>: the requests of a user whose
  status is \<^verbatim>\<open>"approved"\<close>.\<close>

definition user_vacations :: "int \<Rightarrow> world \<Rightarrow> (string \<times> vacation) list" where
  "user_vacations uid w =
     filter (\<lambda>(rid, d). user_id d = uid \<and> status d = Approved) (vacation_data w)"

text \<open>\<^verbatim>\<open>VacationMainMenu.return_from_vacation\<close>: with several matches the member is shown
  a selection (\<^verbatim>\<open>VacationSelectView\<close>), whose \<^verbatim>\<open>select_callback\<close> follows.\<close>

definition return_from_vacation ::
  "datetime \<Rightarrow> int \<Rightarrow> config \<Rightarrow> int \<Rightarrow> world \<Rightarrow> reply \<times> world" where
  "return_from_vacation now gid cfg author w =
     (case user_vacations author w of
        [] \<Rightarrow> (No_active_vacation, w)
      | [(rid, d)] \<Rightarrow> early_return_vacation now gid cfg author rid d w
      | vs \<Rightarrow> (Choose_vacation vs, w))"

definition select_callback ::
  "datetime \<Rightarrow> int \<Rightarrow> config \<Rightarrow> int \<Rightarrow> (string \<times> vacation) list \<Rightarrow> string \<Rightarrow> string
   \<Rightarrow> world \<Rightarrow> reply \<times> world" where
  "select_callback now gid cfg author vacations act rid w =
     (case map_of vacations rid of
        None \<Rightarrow> (Vacation_not_found, w)
      | Some d \<Rightarrow>
          if act = ''return'' then early_return_vacation now gid cfg author rid d w
          else (No_reply, w))"

text \<open>\<^verbatim>\<open>VacationAdmin.vacation_force\<close> with its two choices, finish and recall, for the
  first matching request of the member \<open>target\<close>.\<close>

datatype force_action = Finish | Recall

definition vacation_force ::
  "datetime \<Rightarrow> int \<Rightarrow> config \<Rightarrow> int \<Rightarrow> force_action \<Rightarrow> int \<Rightarrow> world \<Rightarrow> reply \<times> world" where
  "vacation_force now gid cfg author act target w =
     (case user_vacations target w of
        [] \<Rightarrow> (No_active_vacation, w)
      | (rid, d) # _ \<Rightarrow>
          (case act of
             Finish \<Rightarrow> early_return_vacation now gid cfg author rid d w
           | Recall \<Rightarrow>
               if date (start_date d) \<le> date now then (Already_started, w)
               else
                 let d' = d\<lparr>status := Denied, force_recalled := True,
                            force_recalled_by := Some author, force_recalled_at := Some now\<rparr>;
                     w1 = w\<lparr>vacation_requests := AList.update rid d' (vacation_requests w)\<rparr>;
                     w2 = w1\<lparr>vacation_data := AList.delete rid (vacation_data w1),
                             shared := shared w1 - {rid}\<rparr>;
                     w3 = w2\<lparr>vacation_stats :=
                               update_vacation_stats now (user_id d') (duration_days d')
                                 Cancelled_action (vacation_stats w2)\<rparr>
                 in (Vacation_recalled, send_vacation_log gid ''force_recall'' rid w3)))"

section \<open>The scheduler\<close>

text \<open>
  The body of the inner loop of \<^verbatim>\<open>VacationTasks.check_vacations\<close> for one entry
  \<open>(rid, d)\<close> of \<^verbatim>\<open>list(vacation_data.items())\<close>, in guild \<open>gid\<close> with configuration
  \<open>cfg\<close>, at the clock reading \<open>now\<close> of that guild's turn.

  Start branch: everything from \<^verbatim>\<open>guild.get_role\<close> on sits in one \<^verbatim>\<open>try\<close>. The saved
  roles are written into the request dictionary in place before \<^verbatim>\<open>add_roles\<close> is
  awaited, so they stay written when the call raises, and they show in
  \<^verbatim>\<open>vacation_requests\<close> too when it shares the dictionary; the log entry is made only when
  the call does not raise. The status is not changed in this branch.

  End branch: \<^verbatim>\<open>remove_roles\<close> and \<^verbatim>\<open>add_roles\<close> each sit in a \<^verbatim>\<open>try\<close> of their own, and
  the statements after them run whatever happened; at the end only
  \<^verbatim>\<open>vacation_requests\<close> holds the dictionary.
\<close>

definition check_vacation_item ::
  "datetime \<Rightarrow> int \<Rightarrow> config \<Rightarrow> string \<times> vacation \<Rightarrow> world \<Rightarrow> world" where
  "check_vacation_item now gid cfg item w =
     (case item of (rid, d) \<Rightarrow>
        if status d \<noteq> Approved then w
        else if date (start_date d) = date now then
          (case members w (gid, user_id d) of
             None \<Rightarrow> w
           | Some roles \<Rightarrow>
               (case vacation_role_id cfg of
                  None \<Rightarrow> w
                | Some vr \<Rightarrow>
                    if vr = 0 then w
                    else if guild_roles w (gid, vr) \<noteq> None \<and> vr \<notin> set roles then
                      let saved = filter (\<lambda>r. r \<noteq> vr \<and> guild_roles w (gid, r) \<noteq> Some True) roles;
                          d' = d\<lparr>saved_roles := saved\<rparr>;
                          w1 = change_in_data rid d' w;
                          w2 = w1\<lparr>calls := calls w1 @ [Add_roles gid (user_id d) [vr] Vacation_start]\<rparr>
                      in if add_roles_raises w (gid, user_id d) then w2
                         else
                           let w3 = w2\<lparr>members := (members w2)((gid, user_id d) \<mapsto> roles @ [vr])\<rparr>;
                               w4 = send_vacation_log gid ''start'' rid w3
                           in w4\<lparr>vacation_data := AList.update rid d' (vacation_data w4)\<rparr>
                    else w))
        else if date (end_date d) \<le> date now then
          let w1 = remove_vacation_role Vacation_end cfg gid (user_id d) w;
              w2 = restore_saved_roles gid (user_id d) (saved_roles d) w1;
              d' = d\<lparr>status := Completed\<rparr>;
              w3 = w2\<lparr>vacation_data := AList.delete rid (vacation_data w2)\<rparr>;
              w4 = w3\<lparr>vacation_requests := AList.update rid d' (vacation_requests w3),
                      shared := shared w3 - {rid}\<rparr>
          in send_vacation_log gid ''end'' rid w4
        else w)"

text \<open>One turn of the outer loop: the whole of \<^verbatim>\<open>vacation_data\<close>, as it was when the
  turn began, for one guild.\<close>

definition check_vacations_guild :: "datetime \<Rightarrow> int \<Rightarrow> config \<Rightarrow> world \<Rightarrow> world" where
  "check_vacations_guild now gid cfg w =
     fold (check_vacation_item now gid cfg) (vacation_data w) w"

text \<open>\<^verbatim>\<open>check_vacations\<close>: one turn for every guild of \<^verbatim>\<open>bot.guilds\<close>, each given with
  its configuration and the clock reading of its turn.\<close>

fun check_vacations :: "(int \<times> config \<times> datetime) list \<Rightarrow> world \<Rightarrow> world" where
  "check_vacations [] w = w"
| "check_vacations ((gid, cfg, now) # guilds) w =
     check_vacations guilds (check_vacations_guild now gid cfg w)"

text \<open>\<^verbatim>\<open>check_reminders\<close>: the clock is read once, before the loops. The flag is set
  only when the private message went out (\<^verbatim>\<open>except Exception: pass\<close> skips the rest).\<close>

definition check_reminder_item :: "datetime \<Rightarrow> int \<Rightarrow> string \<times> vacation \<Rightarrow> world \<Rightarrow> world" where
  "check_reminder_item now gid item w =
     (case item of (rid, d) \<Rightarrow>
        if status d \<noteq> Approved then w
        else if date (end_date d) - date now = 1 \<and> \<not> reminder_sent d then
          (case members w (gid, user_id d) of
             None \<Rightarrow> w
           | Some roles \<Rightarrow>
               if send_raises w (gid, user_id d) then w
               else
                 let d' = d\<lparr>reminder_sent := True\<rparr>;
                     w1 = change_in_data rid d' w;
                     w2 = w1\<lparr>vacation_data := AList.update rid d' (vacation_data w1)\<rparr>
                 in send_vacation_log gid ''reminder'' rid w2)
        else w)"

fun check_reminders :: "datetime \<Rightarrow> int list \<Rightarrow> world \<Rightarrow> world" where
  "check_reminders now [] w = w"
| "check_reminders now (gid # guilds) w =
     check_reminders now guilds (fold (check_reminder_item now gid) (vacation_data w) w)"

text \<open>\<^verbatim>\<open>check_auto_close\<close>: the clock is read once; every pending request of
  \<^verbatim>\<open>vacation_requests\<close> is measured against the hours configured for the guild whose turn
  it is.\<close>

definition check_auto_close_item ::
  "datetime \<Rightarrow> int \<Rightarrow> config \<Rightarrow> string \<times> vacation \<Rightarrow> world \<Rightarrow> world" where
  "check_auto_close_item now gid cfg item w =
     (case item of (rid, d) \<Rightarrow>
        if status d \<noteq> Pending then w
        else if now \<ge> created_at d + timedelta_hours (auto_close_hours cfg) then
          let d' = d\<lparr>status := Cancelled, auto_closed := True, auto_closed_at := Some now\<rparr>;
              w1 = change_in_requests rid d' w;
              w2 = w1\<lparr>vacation_requests := AList.update rid d' (vacation_requests w1)\<rparr>
          in send_vacation_log gid ''auto_close'' rid w2
        else w)"

fun check_auto_close :: "datetime \<Rightarrow> (int \<times> config) list \<Rightarrow> world \<Rightarrow> world" where
  "check_auto_close now [] w = w"
| "check_auto_close now ((gid, cfg) # guilds) w =
     check_auto_close now guilds
       (fold (check_auto_close_item now gid cfg) (vacation_requests w) w)"

section \<open>Reachable states\<close>

text \<open>
  The states the module can be in: it starts with empty stores, and every step is one of
  the calls above with any arguments, a restart of the process (the stores are loaded
  again and share no dictionary), or a change of the platform's side (members, roles,
  availability) that leaves the stores alone. A selection view holds the list of
  vacations it was built from, which may come from an earlier state.
\<close>

inductive reachable :: "world \<Rightarrow> bool" where
  start: "vacation_requests w = [] \<Longrightarrow> vacation_data w = [] \<Longrightarrow> shared w = {} \<Longrightarrow>
     reachable w"
| restart: "reachable w \<Longrightarrow> reachable (w\<lparr>shared := {}\<rparr>)"
| platform: "reachable w \<Longrightarrow>
     reachable (w\<lparr>members := m, guild_roles := g, add_roles_raises := a,
                  remove_roles_raises := r, send_raises := s\<rparr>)"
| submit: "reachable w \<Longrightarrow>
     reachable (reason_modal_callback now gid cfg author start duration end_d why c posted w)"
| approve: "reachable w \<Longrightarrow> reachable (snd (approve_vacation now gid reviewer rid comment w))"
| deny: "reachable w \<Longrightarrow> reachable (snd (deny_vacation now gid reviewer rid why w))"
| return: "reachable w \<Longrightarrow> reachable (snd (return_from_vacation now gid cfg author w))"
| select: "reachable w0 \<Longrightarrow> reachable w \<Longrightarrow>
     reachable (snd (select_callback now gid cfg author (user_vacations author w0) act rid w))"
| force: "reachable w \<Longrightarrow> reachable (snd (vacation_force now gid cfg author fa target w))"
| lifecycle: "reachable w \<Longrightarrow> reachable (check_vacations guilds w)"
| reminders: "reachable w \<Longrightarrow> reachable (check_reminders now gids w)"
| auto_close: "reachable w \<Longrightarrow> reachable (check_auto_close now gcs w)"

section \<open>The eligibility rules as the specification words them\<close>

text \<open>
  The three rules of the specification, each as a predicate of its own, and their
  evaluation in order with the first failure winning. \<open>can_submit\<close> is compared with
  \<open>can_take_vacation\<close> below.
\<close>

definition holds_banned_role :: "config \<Rightarrow> int list \<Rightarrow> bool" where
  "holds_banned_role cfg roles = (set roles \<inter> set (banned_roles cfg) \<noteq> {})"

definition lacks_minimum_rank :: "config \<Rightarrow> int list \<Rightarrow> bool" where
  "lacks_minimum_rank cfg roles =
     (min_rank_roles cfg \<noteq> [] \<and> set roles \<inter> set (min_rank_roles cfg) = {})"

definition quota_used_up :: "config \<Rightarrow> stats \<Rightarrow> datetime \<Rightarrow> int \<Rightarrow> bool" where
  "quota_used_up cfg vs now uid =
     (count (bucket vs uid (get_month_key now)) \<ge> max_vacations_per_month cfg)"

fun first_failure :: "(bool \<times> message) list \<Rightarrow> bool \<times> message" where
  "first_failure [] = (True, No_message)"
| "first_failure ((fails, m) # rules) = (if fails then (False, m) else first_failure rules)"

definition can_submit ::
  "config \<Rightarrow> stats \<Rightarrow> datetime \<Rightarrow> int \<Rightarrow> int list \<Rightarrow> bool \<times> message" where
  "can_submit cfg vs now uid roles =
     first_failure
       [(holds_banned_role cfg roles, Position_banned),
        (lacks_minimum_rank cfg roles, Rank_too_low),
        (quota_used_up cfg vs now uid, Month_limit_reached (max_vacations_per_month cfg))]"

section \<open>Concrete inputs\<close>

text \<open>
  A guild (id 1) whose vacation role is 900, with one banned role and a limit of one
  vacation a month; members 7 and 8; and the clock reading of midnight, 29 July 2021
  (ordinal day 738000). Member 8 already wears the vacation role.
\<close>

definition cfg1 :: config where
  "cfg1 = \<lparr>vacation_role_id = Some 900, allowed_roles = [1], banned_roles = [13],
          min_rank_roles = [], max_vacations_per_month = 1, auto_close_hours = 24\<rparr>"

definition day_2021_07_29 :: datetime where
  "day_2021_07_29 = 737999 * usec_per_day"

definition world0 :: world where
  "world0 = \<lparr>vacation_requests = [], vacation_data = [], vacation_stats = Map.empty,
             members = [(1, 7) \<mapsto> [5], (1, 8) \<mapsto> [5, 900]],
             guild_roles = [(1, 5) \<mapsto> False, (1, 900) \<mapsto> False],
             add_roles_raises = (\<lambda>_. False), remove_roles_raises = (\<lambda>_. False),
             send_raises = (\<lambda>_. False), calls = [], shared = {}\<rparr>"

text \<open>Ledgers: member 7 with one vacation of 3 days, or of 7 days, in July 2021; member 8
  with one of 3 days.\<close>

definition stats1 :: stats where
  "stats1 = [7 \<mapsto> [''2021-07'' \<mapsto> \<lparr>count = 1, total_days = 3, last_vacation = None\<rparr>]]"

definition ledger1 :: stats where
  "ledger1 = [7 \<mapsto> [''2021-07'' \<mapsto> \<lparr>count = 1, total_days = 7, last_vacation = None\<rparr>]]"

definition ledger2 :: stats where
  "ledger2 = [8 \<mapsto> [''2021-07'' \<mapsto> \<lparr>count = 1, total_days = 3, last_vacation = None\<rparr>]]"


text \<open>Requests: \<open>request1\<close> of member 7, approved, seven days from 29 July;
  \<open>request2\<close> and \<open>request3\<close> of member 8, approved, starting on 5 and 18 August;
  \<open>request4\<close>, the same as \<open>request2\<close> but still pending.\<close>

definition request1 :: vacation where
  "request1 =
     \<lparr>request_id = ''r1'', user_id = 7, start_date = day_2021_07_29,
      end_date = day_2021_07_29 + timedelta_days 7, duration_days = 7,
      reason = ''sea'', contact = ''phone'', status = Approved,
      created_at = day_2021_07_29 - timedelta_days 3, guild_id = 1,
      reviewed_by = Some 2, reviewed_at = Some (day_2021_07_29 - timedelta_days 2),
      review_comment = Some ''fine'', deny_reason = None,
      auto_close_at = day_2021_07_29 - timedelta_days 2,
      saved_roles = [], early_return_at = None, early_return_by = None,
      reminder_sent = False, auto_closed = False, auto_closed_at = None,
      force_recalled = False, force_recalled_by = None, force_recalled_at = None\<rparr>"

definition request2 :: vacation where
  "request2 = request1\<lparr>request_id := ''r2'', user_id := 8,
                start_date := day_2021_07_29 + timedelta_days 7,
                end_date := day_2021_07_29 + timedelta_days 10, duration_days := 3\<rparr>"



definition world1 :: world where
  "world1 = world0\<lparr>vacation_requests := [(''r1'', request1)],
                   vacation_data := [(''r1'', request1)],
                   vacation_stats := ledger1\<rparr>"

definition world2 :: world where
  "world2 = world0\<lparr>vacation_requests := [(''r2'', request2)],
                   vacation_data := [(''r2'', request2)]\<rparr>"



text \<open>Two submissions of member 7, 0.1 s and 0.9 s after that midnight.\<close>

definition first_submission :: world where
  "first_submission =
     reason_modal_callback (day_2021_07_29 + 100000) 1 cfg1 7
       (day_2021_07_29 + timedelta_days 7) 3
       (select_duration (day_2021_07_29 + timedelta_days 7) 3)
       ''first'' ''phone'' True world0"

definition second_submission :: world where
  "second_submission =
     reason_modal_callback (day_2021_07_29 + 900000) 1 cfg1 7
       (day_2021_07_29 + timedelta_days 20) 7
       (select_duration (day_2021_07_29 + timedelta_days 20) 7)
       ''second'' ''phone'' True first_submission"

text \<open>Whether a guild member wears a role.\<close>

definition wears_role :: "world \<Rightarrow> int \<Rightarrow> int \<Rightarrow> int \<Rightarrow> bool" where
  "wears_role w gid uid r =
     (case members w (gid, uid) of None \<Rightarrow> False | Some roles \<Rightarrow> r \<in> set roles)"

text \<open>\<open>request5\<close> of member 8 ran from 19 to 26 July; in \<open>world5\<close> every
  \<^verbatim>\<open>remove_roles\<close> call raises.\<close>

definition request5 :: vacation where
  "request5 = request1\<lparr>request_id := ''r5'', user_id := 8,
                start_date := day_2021_07_29 - timedelta_days 10,
                end_date := day_2021_07_29 - timedelta_days 3\<rparr>"



section \<open>The calls of an activation and of an expiry\<close>

text \<open>
  The calls that the start branch of \<^verbatim>\<open>check_vacations\<close> makes for the request \<open>rid\<close>
  with the data \<open>d\<close> in the guild \<open>gid\<close>: the grant of the vacation role to the request's
  member with the start-of-vacation reason, and the \<^verbatim>\<open>"start"\<close> log entry. And those of the
  end branch: the removal of the vacation role with the end-of-vacation reason, the
  restoration of the saved roles, and the \<^verbatim>\<open>"end"\<close> log entry.
\<close>

fun activation_call :: "int \<Rightarrow> string \<Rightarrow> vacation \<Rightarrow> call \<Rightarrow> bool" where
  "activation_call gid rid d (Add_roles g u rs why) =
     (g = gid \<and> u = user_id d \<and> why = Vacation_start)"
| "activation_call gid rid d (Remove_roles g u r why) = False"
| "activation_call gid rid d (Vacation_log g act r) = (g = gid \<and> act = ''start'' \<and> r = rid)"

fun expiry_call :: "int \<Rightarrow> string \<Rightarrow> vacation \<Rightarrow> call \<Rightarrow> bool" where
  "expiry_call gid rid d (Add_roles g u rs why) =
     (g = gid \<and> u = user_id d \<and> why = Roles_restored)"
| "expiry_call gid rid d (Remove_roles g u r why) =
     (g = gid \<and> u = user_id d \<and> why = Vacation_end)"
| "expiry_call gid rid d (Vacation_log g act r) = (g = gid \<and> act = ''end'' \<and> r = rid)"

text \<open>A call that a scheduler turn reading the clock at \<open>now\<close> may make for the request:
  one of the activation when the start date is today's, one of the expiry when it is not
  and the end date is reached.\<close>

definition lifecycle_call :: "datetime \<Rightarrow> int \<Rightarrow> string \<Rightarrow> vacation \<Rightarrow> call \<Rightarrow> bool" where
  "lifecycle_call now gid rid d c =
     (status d = Approved
      \<and> (date (start_date d) = date now \<and> activation_call gid rid d c
         \<or> date (start_date d) \<noteq> date now \<and> date (end_date d) \<le> date now
           \<and> expiry_call gid rid d c))"

text \<open>\<open>world1\<close> in a running process, where the approval has put one dictionary into both
  stores; and a world in which \<open>request1\<close> starts today and \<open>request5\<close> has ended.\<close>

definition world6 :: world where
  "world6 = world1\<lparr>shared := {''r1''}\<rparr>"

definition world7 :: world where
  "world7 = world0\<lparr>vacation_requests := [(''r1'', request1), (''r5'', request5)],
                   vacation_data := [(''r1'', request1), (''r5'', request5)],
                   shared := {''r1'', ''r5''}\<rparr>"
section \<open>The review record and the status\<close>

text \<open>What holds of every stored request in every reachable state: the review record is
  absent exactly when the status is pending or cancelled (closed by the scheduler).\<close>

definition review_matches_status :: "vacation \<Rightarrow> bool" where
  "review_matches_status d = (review d = None \<longleftrightarrow> status d = Pending \<or> status d = Cancelled)"

definition store_ok :: "(string \<times> vacation) list \<Rightarrow> bool" where
  "store_ok al = list_all (\<lambda>(rid, d). review_matches_status d) al"

definition stores_ok :: "world \<Rightarrow> bool" where
  "stores_ok w = (store_ok (vacation_requests w) \<and> store_ok (vacation_data w))"

text \<open>The first submission above, closed by the auto-close pass two days later, and the
  request that pass leaves in the store.\<close>

definition auto_closed_world :: world where
  "auto_closed_world =
     check_auto_close (day_2021_07_29 + timedelta_days 2) [(1, cfg1)] first_submission"

definition auto_closed_request :: vacation where
  "auto_closed_request =
     \<lparr>request_id = new_request_id 7 (day_2021_07_29 + 100000), user_id = 7,
      start_date = day_2021_07_29 + timedelta_days 7,
      end_date = day_2021_07_29 + timedelta_days 10, duration_days = 3,
      reason = ''first'', contact = ''phone'', status = Cancelled,
      created_at = day_2021_07_29 + 100000, guild_id = 1,
      reviewed_by = None, reviewed_at = None, review_comment = None, deny_reason = None,
      auto_close_at = day_2021_07_29 + 100000 + timedelta_hours 24,
      saved_roles = [], early_return_at = None, early_return_by = None,
      reminder_sent = False, auto_closed = True,
      auto_closed_at = Some (day_2021_07_29 + timedelta_days 2),
      force_recalled = False, force_recalled_by = None, force_recalled_at = None\<rparr>"

section \<open>Calendar facts for the concrete inputs\<close>

lemma dates_july:
  "date day_2021_07_29 = 738000"
  "date (day_2021_07_29 + timedelta_hours 12) = 738000"
  "date (day_2021_07_29 + timedelta_days n) = 738000 + n"
  by (simp_all add: day_2021_07_29_def date_def usec_per_day_def usec_per_hour_def
      timedelta_days_def timedelta_hours_def)

lemma ord2ym_2021:
  "ord2ym 738000 = (2021, 7)"
  "ord2ym 738002 = (2021, 7)"
  "ord2ym 738003 = (2021, 8)"
  "ord2ym 738004 = (2021, 8)"
  "ord2ym 738007 = (2021, 8)"
  by (simp_all add: ord2ym_def days_before_month_def Let_def)

lemma month_strings:
  "zero_pad 4 (str_int 2021) = ''2021''"
  "zero_pad 2 (str_int 7) = ''07''"
  "zero_pad 2 (str_int 8) = ''08''"
  by (simp_all add: zero_pad_def str_int_def digit_char_def str_nat.simps)

lemma month_keys:
  "get_month_key day_2021_07_29 = ''2021-07''"
  "get_month_key (day_2021_07_29 + timedelta_hours 12) = ''2021-07''"
  "get_month_key (day_2021_07_29 + timedelta_days 2) = ''2021-07''"
  "get_month_key (day_2021_07_29 + timedelta_days 3) = ''2021-08''"
  "get_month_key (day_2021_07_29 + timedelta_days 4) = ''2021-08''"
  "get_month_key (day_2021_07_29 + timedelta_days 7) = ''2021-08''"
  by (simp_all add: get_month_key_def dates_july ord2ym_2021 month_strings)

lemma timestamps_same_second:
  "int_timestamp (day_2021_07_29 + 100000) = 1627506000"
  "int_timestamp (day_2021_07_29 + 900000) = 1627506000"
  by (simp_all add: int_timestamp_def unix_epoch_def day_2021_07_29_def usec_per_day_def
      usec_per_hour_def)

section \<open>Ledger lemmas\<close>

lemma list_ex_mem_inter: "list_ex (\<lambda>r. r \<in> set bs) rs \<longleftrightarrow> set rs \<inter> set bs \<noteq> {}"
  by (auto simp: list_ex_iff)

lemma bucket_update:
  "bucket (update_vacation_stats now uid d act vs) uid (get_month_key now)
   = apply_action now d act (bucket vs uid (get_month_key now))"
  by (simp add: update_vacation_stats_def bucket_def Let_def split: option.splits)


section \<open>What each call leaves alone\<close>

lemma remove_vacation_role_stores [simp]:
  "vacation_requests (remove_vacation_role why cfg gid uid w) = vacation_requests w"
  "vacation_data (remove_vacation_role why cfg gid uid w) = vacation_data w"
  "vacation_stats (remove_vacation_role why cfg gid uid w) = vacation_stats w"
  "shared (remove_vacation_role why cfg gid uid w) = shared w"
  by (simp_all add: remove_vacation_role_def Let_def split: option.splits)

lemma restore_saved_roles_stores [simp]:
  "vacation_requests (restore_saved_roles gid uid saved w) = vacation_requests w"
  "vacation_data (restore_saved_roles gid uid saved w) = vacation_data w"
  "vacation_stats (restore_saved_roles gid uid saved w) = vacation_stats w"
  "shared (restore_saved_roles gid uid saved w) = shared w"
  by (simp_all add: restore_saved_roles_def Let_def split: option.splits)

lemma change_in_requests_fields [simp]:
  "vacation_requests (change_in_requests rid d' w) = AList.update rid d' (vacation_requests w)"
  "vacation_data (change_in_requests rid d' w)
     = (if rid \<in> shared w then AList.update rid d' (vacation_data w) else vacation_data w)"
  "vacation_stats (change_in_requests rid d' w) = vacation_stats w"
  "members (change_in_requests rid d' w) = members w"
  "guild_roles (change_in_requests rid d' w) = guild_roles w"
  "add_roles_raises (change_in_requests rid d' w) = add_roles_raises w"
  "remove_roles_raises (change_in_requests rid d' w) = remove_roles_raises w"
  "send_raises (change_in_requests rid d' w) = send_raises w"
  "calls (change_in_requests rid d' w) = calls w"
  "shared (change_in_requests rid d' w) = shared w"
  by (simp_all add: change_in_requests_def Let_def)

lemma change_in_data_fields [simp]:
  "vacation_data (change_in_data rid d' w) = AList.update rid d' (vacation_data w)"
  "vacation_requests (change_in_data rid d' w)
     = (if rid \<in> shared w then AList.update rid d' (vacation_requests w)
        else vacation_requests w)"
  "vacation_stats (change_in_data rid d' w) = vacation_stats w"
  "members (change_in_data rid d' w) = members w"
  "guild_roles (change_in_data rid d' w) = guild_roles w"
  "add_roles_raises (change_in_data rid d' w) = add_roles_raises w"
  "remove_roles_raises (change_in_data rid d' w) = remove_roles_raises w"
  "send_raises (change_in_data rid d' w) = send_raises w"
  "calls (change_in_data rid d' w) = calls w"
  "shared (change_in_data rid d' w) = shared w"
  by (simp_all add: change_in_data_def Let_def)

lemma send_vacation_log_stores [simp]:
  "vacation_requests (send_vacation_log gid act rid w) = vacation_requests w"
  "vacation_data (send_vacation_log gid act rid w) = vacation_data w"
  "vacation_stats (send_vacation_log gid act rid w) = vacation_stats w"
  "members (send_vacation_log gid act rid w) = members w"
  "shared (send_vacation_log gid act rid w) = shared w"
  "calls (send_vacation_log gid act rid w) = calls w @ [Vacation_log gid act rid]"
  by (simp_all add: send_vacation_log_def)

section \<open>Early return, approval and recall, field by field\<close>

lemma early_return_requests:
  "vacation_requests (snd (early_return_vacation now gid cfg author rid d w))
   = AList.update rid (d\<lparr>status := Early_return, early_return_at := Some now,
                         early_return_by := Some author\<rparr>) (vacation_requests w)"
  by (simp add: early_return_vacation_def Let_def)

lemma early_return_data:
  "vacation_data (snd (early_return_vacation now gid cfg author rid d w))
   = AList.delete rid (vacation_data w)"
  by (simp add: early_return_vacation_def Let_def)

lemma early_return_stats:
  "vacation_stats (snd (early_return_vacation now gid cfg author rid d w))
   = (if date now - date (start_date d) > 0
      then update_vacation_stats now (user_id d)
             (duration_days d - (date now - date (start_date d))) Cancelled_action
             (vacation_stats w)
      else vacation_stats w)"
  by (simp add: early_return_vacation_def Let_def)










section \<open>Eligibility: the order of the rules\<close>

text \<open>
  C5. \<open>can_take_vacation\<close> evaluates the three rules in the order banned roles, minimum
  rank, monthly quota and answers with the first one that fails: it equals the
  specification's first-failure-wins evaluation \<open>can_submit\<close>; a member who holds a banned
  role and is over quota is refused for the banned role; a member failing no rule is
  accepted.
\<close>

theorem can_take_vacation_rule_order:
  "can_take_vacation cfg vs now uid roles = can_submit cfg vs now uid roles
   \<and> (holds_banned_role cfg roles \<and> quota_used_up cfg vs now uid
        \<longrightarrow> can_take_vacation cfg vs now uid roles = (False, Position_banned))
   \<and> (\<not> holds_banned_role cfg roles \<and> \<not> lacks_minimum_rank cfg roles
        \<and> \<not> quota_used_up cfg vs now uid
        \<longrightarrow> can_take_vacation cfg vs now uid roles = (True, No_message))"
  by (simp add: can_take_vacation_def can_submit_def holds_banned_role_def
      lacks_minimum_rank_def quota_used_up_def list_ex_mem_inter Let_def)

theorem can_take_vacation_rule_order_witness:
  "holds_banned_role cfg1 [13, 5] \<and> quota_used_up cfg1 stats1 day_2021_07_29 7
   \<and> can_take_vacation cfg1 stats1 day_2021_07_29 7 [13, 5] = (False, Position_banned)
   \<and> \<not> holds_banned_role cfg1 [5] \<and> \<not> lacks_minimum_rank cfg1 [5]
   \<and> \<not> quota_used_up cfg1 stats1 day_2021_07_29 8
   \<and> can_take_vacation cfg1 stats1 day_2021_07_29 8 [5] = (True, No_message)"
proof -
  have a: "holds_banned_role cfg1 [13, 5]"
    by (simp add: holds_banned_role_def cfg1_def)
  have b: "quota_used_up cfg1 stats1 day_2021_07_29 7"
    by (simp add: quota_used_up_def month_keys bucket_def stats1_def cfg1_def)
  have c: "\<not> holds_banned_role cfg1 [5]"
    by (simp add: holds_banned_role_def cfg1_def)
  have d: "\<not> lacks_minimum_rank cfg1 [5]"
    by (simp add: lacks_minimum_rank_def cfg1_def)
  have e: "\<not> quota_used_up cfg1 stats1 day_2021_07_29 8"
    by (simp add: quota_used_up_def month_keys bucket_def stats1_def cfg1_def
        new_month_stats_def)
  from a b c d e can_take_vacation_rule_order [of cfg1 stats1 day_2021_07_29 7 "[13, 5]"]
    can_take_vacation_rule_order [of cfg1 stats1 day_2021_07_29 8 "[5]"]
  show ?thesis by blast
qed

section \<open>Ledger: what a debit does to the counters\<close>

text \<open>
  C8, as the specification states it, fails: a debit of 5 days against a bucket that
  holds 3 days leaves the 3 days where they are; it does not clamp them to 0.
\<close>

theorem debit_clamp_counterexample:
  "total_days (bucket stats1 7 ''2021-07'') = 3
   \<and> total_days
       (bucket (update_vacation_stats day_2021_07_29 7 5 Cancelled_action stats1) 7 ''2021-07'')
     = 3
   \<and> total_days
       (bucket (update_vacation_stats day_2021_07_29 7 5 Cancelled_action stats1) 7 ''2021-07'')
     \<noteq> max 0 (3 - 5)"
  by (simp add: update_vacation_stats_def month_keys bucket_def stats1_def
      apply_action_def Let_def)

text \<open>
  C8, amended. A debit of \<open>d\<close> days against a bucket with count \<open>c \<ge> 0\<close> and
  \<open>total_days\<close> \<open>t \<ge> 0\<close> leaves the count at \<open>max 0 (c - 1)\<close>, and \<open>total_days\<close> at \<open>t - d\<close>
  when \<open>d \<le> t\<close> and unchanged at \<open>t\<close> when \<open>d > t\<close>; neither counter becomes negative.
\<close>

theorem debit_counters:
  assumes "0 \<le> count (bucket vs uid (get_month_key now))"
    and "0 \<le> total_days (bucket vs uid (get_month_key now))"
  shows "count (bucket (update_vacation_stats now uid d Cancelled_action vs) uid
                  (get_month_key now))
           = max 0 (count (bucket vs uid (get_month_key now)) - 1)
       \<and> total_days (bucket (update_vacation_stats now uid d Cancelled_action vs) uid
                       (get_month_key now))
           = (if d \<le> total_days (bucket vs uid (get_month_key now))
              then total_days (bucket vs uid (get_month_key now)) - d
              else total_days (bucket vs uid (get_month_key now)))
       \<and> 0 \<le> count (bucket (update_vacation_stats now uid d Cancelled_action vs) uid
                       (get_month_key now))
       \<and> 0 \<le> total_days (bucket (update_vacation_stats now uid d Cancelled_action vs) uid
                            (get_month_key now))"
  using assms by (simp add: bucket_update apply_action_def Let_def)

theorem debit_counters_witness:
  "count (bucket stats1 7 (get_month_key day_2021_07_29)) = 1
   \<and> total_days (bucket stats1 7 (get_month_key day_2021_07_29)) = 3
   \<and> count (bucket (update_vacation_stats day_2021_07_29 7 2 Cancelled_action stats1) 7
              (get_month_key day_2021_07_29)) = 0
   \<and> total_days (bucket (update_vacation_stats day_2021_07_29 7 2 Cancelled_action stats1) 7
                   (get_month_key day_2021_07_29)) = 1"
proof -
  have b: "bucket stats1 7 (get_month_key day_2021_07_29)
           = \<lparr>count = 1, total_days = 3, last_vacation = None\<rparr>"
    by (simp add: month_keys bucket_def stats1_def)
  show ?thesis using debit_counters [of stats1 7 day_2021_07_29 2] by (simp add: b)
qed

section \<open>Early return: what is debited\<close>

text \<open>
  C1, as the specification states it, fails. A return on the first day of the vacation
  (no day elapsed) debits nothing, where the claim has the full seven days debited; and a
  return after two of seven days against a bucket that holds only three days leaves the
  three days where they are, where the claim has five debited.
\<close>

theorem early_return_debit_counterexample:
  "date (day_2021_07_29 + timedelta_hours 12) - date (start_date request1) = 0
   \<and> duration_days request1 = 7
   \<and> total_days (bucket (vacation_stats world1) 7 ''2021-07'') = 7
   \<and> total_days (bucket (vacation_stats (snd (early_return_vacation
        (day_2021_07_29 + timedelta_hours 12) 1 cfg1 7 ''r1'' request1 world1))) 7 ''2021-07'') = 7
   \<and> date (day_2021_07_29 + timedelta_days 2) - date (start_date request1) = 2
   \<and> total_days (bucket stats1 7 ''2021-07'') = 3
   \<and> total_days (bucket (vacation_stats (snd (early_return_vacation
        (day_2021_07_29 + timedelta_days 2) 1 cfg1 7 ''r1'' request1
        (world1\<lparr>vacation_stats := stats1\<rparr>)))) 7 ''2021-07'') = 3"
  by (simp add: early_return_stats dates_july month_keys request1_def world1_def
      world0_def ledger1_def stats1_def bucket_def update_vacation_stats_def
      apply_action_def)

text \<open>
  C1, amended. When at least one day and at most \<open>duration_days\<close> days have elapsed since
  \<open>start_date\<close>, and the bucket of the month of the return holds at least the unused days,
  an early return debits that bucket's \<open>total_days\<close> by exactly
  \<open>duration_days - days_elapsed\<close>, an amount that is not negative and not above
  \<open>duration_days\<close>.
\<close>

theorem early_return_debit:
  assumes "0 < date now - date (start_date d)"
    and "date now - date (start_date d) \<le> duration_days d"
    and "duration_days d - (date now - date (start_date d))
           \<le> total_days (bucket (vacation_stats w) (user_id d) (get_month_key now))"
  shows "total_days (bucket (vacation_stats (snd (early_return_vacation now gid cfg author rid d w)))
                       (user_id d) (get_month_key now))
         = total_days (bucket (vacation_stats w) (user_id d) (get_month_key now))
           - (duration_days d - (date now - date (start_date d)))
       \<and> 0 \<le> duration_days d - (date now - date (start_date d))
       \<and> duration_days d - (date now - date (start_date d)) \<le> duration_days d"
  using assms by (simp add: early_return_stats bucket_update apply_action_def Let_def)

theorem early_return_debit_witness:
  "0 < date (day_2021_07_29 + timedelta_days 2) - date (start_date request1)
   \<and> date (day_2021_07_29 + timedelta_days 2) - date (start_date request1) \<le> duration_days request1
   \<and> total_days (bucket (vacation_stats world1) (user_id request1)
        (get_month_key (day_2021_07_29 + timedelta_days 2))) = 7
   \<and> total_days (bucket (vacation_stats (snd (early_return_vacation
        (day_2021_07_29 + timedelta_days 2) 1 cfg1 7 ''r1'' request1 world1)))
        (user_id request1) (get_month_key (day_2021_07_29 + timedelta_days 2))) = 2"
proof -
  have a: "date (day_2021_07_29 + timedelta_days 2) - date (start_date request1) = 2"
    by (simp add: dates_july request1_def)
  have b: "duration_days request1 = 7" by (simp add: request1_def)
  have c: "total_days (bucket (vacation_stats world1) (user_id request1)
        (get_month_key (day_2021_07_29 + timedelta_days 2))) = 7"
    by (simp add: month_keys request1_def world1_def world0_def ledger1_def bucket_def)
  show ?thesis
    using early_return_debit [of "day_2021_07_29 + timedelta_days 2" request1 world1 1 cfg1 7 "''r1''"]
    by (simp add: a b c)
qed

section \<open>A decided request is not decided again\<close>

text \<open>
  C3. Approving or denying a request whose status is not pending is refused with the
  answer that it has been reviewed already, and nothing is changed: the returned state is
  the state before the call, so the request, the ledger and every other store are as they
  were and an approved request is not credited a second time.
\<close>

theorem decided_request_is_not_decided_again:
  assumes "map_of (vacation_requests w) rid = Some d" and "status d \<noteq> Pending"
  shows "approve_vacation now gid reviewer rid comment w = (Already_reviewed, w)
       \<and> deny_vacation now gid reviewer rid why w = (Already_reviewed, w)"
  using assms by (simp add: approve_vacation_def deny_vacation_def)

theorem decided_request_is_not_decided_again_witness:
  "map_of (vacation_requests world1) ''r1'' = Some request1
   \<and> status request1 \<noteq> Pending
   \<and> approve_vacation day_2021_07_29 1 2 ''r1'' ''again'' world1 = (Already_reviewed, world1)
   \<and> deny_vacation day_2021_07_29 1 2 ''r1'' ''late'' world1 = (Already_reviewed, world1)"
proof -
  have a: "map_of (vacation_requests world1) ''r1'' = Some request1"
    by (simp add: world1_def)
  have b: "status request1 \<noteq> Pending"
    by (simp add: request1_def)
  show ?thesis
    using a b decided_request_is_not_decided_again [OF a b, of day_2021_07_29 1 2 "''again''" "''late''"]
    by simp
qed

section \<open>Request ids\<close>

text \<open>
  C6 does not hold of the code: the id is the member's id and the whole second of the
  submission, so two submissions of one member within the same second get the same id and
  the second replaces the first in \<open>vacation_requests\<close>.
\<close>

theorem same_second_submissions_collide:
  "day_2021_07_29 + 100000 \<noteq> day_2021_07_29 + 900000
   \<and> new_request_id 7 (day_2021_07_29 + 100000) = new_request_id 7 (day_2021_07_29 + 900000)
   \<and> map (\<lambda>(rid, d). reason d) (vacation_requests first_submission) = [''first'']
   \<and> map (\<lambda>(rid, d). reason d) (vacation_requests second_submission) = [''second'']"
  by (simp add: new_request_id_def timestamps_same_second first_submission_def
      second_submission_def reason_modal_callback_def world0_def Let_def)

section \<open>Early return of a vacation that has not begun\<close>



section \<open>The ledger bucket is the month of the transition\<close>



section \<open>The lifecycle pass, request by request\<close>

lemma item_other_key:
  "rid' \<noteq> fst item \<Longrightarrow>
   map_of (vacation_data (check_vacation_item now gid cfg item w)) rid' = map_of (vacation_data w) rid'
   \<and> map_of (vacation_requests (check_vacation_item now gid cfg item w)) rid'
       = map_of (vacation_requests w) rid'
   \<and> (rid' \<in> shared (check_vacation_item now gid cfg item w) \<longleftrightarrow> rid' \<in> shared w)"
  by (cases item)
     (auto simp add: check_vacation_item_def Let_def AList.update_conv' AList.delete_conv'
        split: option.splits)

lemma fold_other_keys:
  "rid' \<notin> fst ` set xs \<Longrightarrow>
   map_of (vacation_data (fold (check_vacation_item now gid cfg) xs w)) rid'
     = map_of (vacation_data w) rid'
   \<and> map_of (vacation_requests (fold (check_vacation_item now gid cfg) xs w)) rid'
       = map_of (vacation_requests w) rid'
   \<and> (rid' \<in> shared (fold (check_vacation_item now gid cfg) xs w) \<longleftrightarrow> rid' \<in> shared w)"
proof (induction xs arbitrary: w)
  case Nil
  show ?case by simp
next
  case (Cons x xs)
  from Cons.prems have "rid' \<noteq> fst x" and "rid' \<notin> fst ` set xs" by auto
  with Cons.IH [of "check_vacation_item now gid cfg x w"] item_other_key [of rid' x now gid cfg w]
  show ?case by simp
qed


lemma item_not_ending:
  assumes "date now < date (end_date d)" and "map_of (vacation_data w) rid = Some d"
  shows "(\<exists>s. map_of (vacation_data (check_vacation_item now gid cfg (rid, d) w)) rid
             = Some (d\<lparr>saved_roles := s\<rparr>))
       \<and> (map_of (vacation_requests (check_vacation_item now gid cfg (rid, d) w)) rid
            = map_of (vacation_requests w) rid
          \<or> rid \<in> shared w
            \<and> (\<exists>s. map_of (vacation_requests (check_vacation_item now gid cfg (rid, d) w)) rid
                   = Some (d\<lparr>saved_roles := s\<rparr>)))
       \<and> shared (check_vacation_item now gid cfg (rid, d) w) = shared w"
proof -
  have "d = d\<lparr>saved_roles := saved_roles d\<rparr>" by simp
  then have same: "\<exists>s. d = d\<lparr>saved_roles := s\<rparr>" by (rule exI)
  with assms show ?thesis
    by (auto simp add: check_vacation_item_def Let_def AList.update_conv' split: option.splits)
qed

lemma item_not_starting:
  assumes "date (start_date d) \<noteq> date now" and "map_of (vacation_data w) rid = Some d"
  shows "map_of (vacation_data (check_vacation_item now gid cfg (rid, d) w)) rid = Some d
         \<and> map_of (vacation_requests (check_vacation_item now gid cfg (rid, d) w)) rid
             = map_of (vacation_requests w) rid
       \<or> status d = Approved \<and> date (end_date d) \<le> date now
         \<and> map_of (vacation_data (check_vacation_item now gid cfg (rid, d) w)) rid = None
         \<and> map_of (vacation_requests (check_vacation_item now gid cfg (rid, d) w)) rid
             = Some (d\<lparr>status := Completed\<rparr>)"
  using assms
  by (auto simp add: check_vacation_item_def Let_def AList.update_conv' AList.delete_conv')

lemma item_idle:
  "status d \<noteq> Approved \<or> date (start_date d) \<noteq> date now \<and> date now < date (end_date d) \<Longrightarrow>
   check_vacation_item now gid cfg (rid, d) w = w"
  by (auto simp add: check_vacation_item_def)

lemma fold_idle:
  "\<forall>(rid, d) \<in> set xs. status d = Approved \<longrightarrow>
       date (start_date d) \<noteq> date now \<and> date now < date (end_date d) \<Longrightarrow>
   fold (check_vacation_item now gid cfg) xs w = w"
proof (induction xs)
  case Nil
  show ?case by simp
next
  case (Cons x xs)
  obtain rid d where x: "x = (rid, d)" by (cases x)
  from Cons.prems have "check_vacation_item now gid cfg (rid, d) w = w"
    by (intro item_idle) (auto simp add: x)
  with Cons show ?case by (simp add: x)
qed

lemma split_distinct:
  assumes "distinct (map fst xs)" and "map_of xs rid = Some d"
  obtains ys zs where "xs = ys @ (rid, d) # zs" "rid \<notin> fst ` set ys" "rid \<notin> fst ` set zs"
proof -
  from assms(2) have "(rid, d) \<in> set xs" by (rule map_of_SomeD)
  then obtain ys zs where xs: "xs = ys @ (rid, d) # zs" by (auto dest: split_list)
  with assms(1) have "rid \<notin> fst ` set ys" "rid \<notin> fst ` set zs" by auto
  with xs show ?thesis by (rule that)
qed


lemma pass_not_ending:
  assumes "distinct (map fst (vacation_data w))" and "map_of (vacation_data w) rid = Some d"
    and "date now < date (end_date d)"
  shows "(\<exists>s. map_of (vacation_data (check_vacations_guild now gid cfg w)) rid
             = Some (d\<lparr>saved_roles := s\<rparr>))
       \<and> (map_of (vacation_requests (check_vacations_guild now gid cfg w)) rid
            = map_of (vacation_requests w) rid
          \<or> rid \<in> shared w
            \<and> (\<exists>s. map_of (vacation_requests (check_vacations_guild now gid cfg w)) rid
                   = Some (d\<lparr>saved_roles := s\<rparr>)))
       \<and> (rid \<in> shared (check_vacations_guild now gid cfg w) \<longleftrightarrow> rid \<in> shared w)"
proof -
  from assms(1,2) obtain ys zs where xs: "vacation_data w = ys @ (rid, d) # zs"
    and ys: "rid \<notin> fst ` set ys" and zs: "rid \<notin> fst ` set zs"
    by (rule split_distinct)
  let ?f = "check_vacation_item now gid cfg"
  have eq: "check_vacations_guild now gid cfg w = fold ?f zs (?f (rid, d) (fold ?f ys w))"
    by (simp add: check_vacations_guild_def xs)
  have mid: "map_of (vacation_data (fold ?f ys w)) rid = Some d"
    using fold_other_keys [OF ys, of now gid cfg w] assms(2) by simp
  from item_not_ending [OF assms(3) mid, of gid cfg]
    fold_other_keys [OF zs, of now gid cfg "?f (rid, d) (fold ?f ys w)"]
    fold_other_keys [OF ys, of now gid cfg w]
  show ?thesis unfolding eq by auto
qed

lemma pass_not_starting:
  assumes "distinct (map fst (vacation_data w))" and "map_of (vacation_data w) rid = Some d"
    and "date (start_date d) \<noteq> date now"
  shows "map_of (vacation_data (check_vacations_guild now gid cfg w)) rid = Some d
         \<and> map_of (vacation_requests (check_vacations_guild now gid cfg w)) rid
             = map_of (vacation_requests w) rid
       \<or> status d = Approved \<and> date (end_date d) \<le> date now
         \<and> map_of (vacation_data (check_vacations_guild now gid cfg w)) rid = None
         \<and> map_of (vacation_requests (check_vacations_guild now gid cfg w)) rid
             = Some (d\<lparr>status := Completed\<rparr>)"
proof -
  from assms(1,2) obtain ys zs where xs: "vacation_data w = ys @ (rid, d) # zs"
    and ys: "rid \<notin> fst ` set ys" and zs: "rid \<notin> fst ` set zs"
    by (rule split_distinct)
  let ?f = "check_vacation_item now gid cfg"
  have eq: "check_vacations_guild now gid cfg w = fold ?f zs (?f (rid, d) (fold ?f ys w))"
    by (simp add: check_vacations_guild_def xs)
  have mid: "map_of (vacation_data (fold ?f ys w)) rid = Some d"
    using fold_other_keys [OF ys, of now gid cfg w] assms(2) by simp
  from item_not_starting [OF assms(3) mid, of gid cfg]
    fold_other_keys [OF zs, of now gid cfg "?f (rid, d) (fold ?f ys w)"]
    fold_other_keys [OF ys, of now gid cfg w]
  show ?thesis unfolding eq by auto
qed

section \<open>The calls the lifecycle pass makes\<close>

lemma remove_vacation_role_calls:
  "calls (remove_vacation_role why cfg gid uid w) = calls w
   \<or> (\<exists>vr. calls (remove_vacation_role why cfg gid uid w) = calls w @ [Remove_roles gid uid vr why])"
  by (simp add: remove_vacation_role_def Let_def split: option.splits)

lemma restore_saved_roles_calls:
  "calls (restore_saved_roles gid uid saved w) = calls w
   \<or> (\<exists>rs. calls (restore_saved_roles gid uid saved w)
             = calls w @ [Add_roles gid uid rs Roles_restored])"
  by (simp add: restore_saved_roles_def Let_def split: option.splits)

lemma lifecycle_call_saved_roles [simp]:
  "lifecycle_call now gid rid (d\<lparr>saved_roles := s\<rparr>) c = lifecycle_call now gid rid d c"
  by (cases c) (simp_all add: lifecycle_call_def)

lemma item_start_calls:
  assumes "status d = Approved" and "date (start_date d) = date now"
  shows "calls (check_vacation_item now gid cfg (rid, d) w) = calls w
       \<or> (\<exists>vr. calls (check_vacation_item now gid cfg (rid, d) w)
                = calls w @ [Add_roles gid (user_id d) [vr] Vacation_start])
       \<or> (\<exists>vr. calls (check_vacation_item now gid cfg (rid, d) w)
                = calls w @ [Add_roles gid (user_id d) [vr] Vacation_start,
                             Vacation_log gid ''start'' rid])"
  using assms
  by (auto simp add: check_vacation_item_def Let_def split: option.splits)

lemma item_end_calls:
  assumes "status d = Approved" and "date (start_date d) \<noteq> date now"
    and "date (end_date d) \<le> date now"
  shows "\<exists>a b. calls (check_vacation_item now gid cfg (rid, d) w)
                = calls w @ a @ b @ [Vacation_log gid ''end'' rid]
           \<and> (a = [] \<or> (\<exists>vr. a = [Remove_roles gid (user_id d) vr Vacation_end]))
           \<and> (b = [] \<or> (\<exists>rs. b = [Add_roles gid (user_id d) rs Roles_restored]))"
proof -
  let ?w1 = "remove_vacation_role Vacation_end cfg gid (user_id d) w"
  let ?w2 = "restore_saved_roles gid (user_id d) (saved_roles d) ?w1"
  from remove_vacation_role_calls [of Vacation_end cfg gid "user_id d" w]
  obtain a where a: "calls ?w1 = calls w @ a"
    "a = [] \<or> (\<exists>vr. a = [Remove_roles gid (user_id d) vr Vacation_end])"
    by auto
  from restore_saved_roles_calls [of gid "user_id d" "saved_roles d" ?w1]
  obtain b where b: "calls ?w2 = calls ?w1 @ b"
    "b = [] \<or> (\<exists>rs. b = [Add_roles gid (user_id d) rs Roles_restored])"
    by auto
  have "calls (check_vacation_item now gid cfg (rid, d) w)
          = calls ?w2 @ [Vacation_log gid ''end'' rid]"
    using assms by (simp add: check_vacation_item_def Let_def)
  with a b have "calls (check_vacation_item now gid cfg (rid, d) w)
                = calls w @ a @ b @ [Vacation_log gid ''end'' rid]
           \<and> (a = [] \<or> (\<exists>vr. a = [Remove_roles gid (user_id d) vr Vacation_end]))
           \<and> (b = [] \<or> (\<exists>rs. b = [Add_roles gid (user_id d) rs Roles_restored]))"
    by simp
  then show ?thesis by blast
qed

lemma item_calls:
  "\<exists>added. calls (check_vacation_item now gid cfg (rid, d) w) = calls w @ added
     \<and> (\<forall>c \<in> set added. lifecycle_call now gid rid d c)"
proof -
  let ?w' = "check_vacation_item now gid cfg (rid, d) w"
  consider "status d \<noteq> Approved \<or> date (start_date d) \<noteq> date now \<and> date now < date (end_date d)"
    | "status d = Approved" "date (start_date d) = date now"
    | "status d = Approved" "date (start_date d) \<noteq> date now" "date (end_date d) \<le> date now"
    by fastforce
  then show ?thesis
  proof cases
    case 1
    then have "?w' = w" by (rule item_idle)
    then have "calls ?w' = calls w @ [] \<and> (\<forall>c \<in> set []. lifecycle_call now gid rid d c)"
      by simp
    then show ?thesis by (rule exI)
  next
    case 2
    from item_start_calls [OF 2, of gid cfg rid w]
    consider "calls ?w' = calls w @ []"
      | vr where "calls ?w' = calls w @ [Add_roles gid (user_id d) [vr] Vacation_start]"
      | vr where "calls ?w' = calls w @ [Add_roles gid (user_id d) [vr] Vacation_start,
                             Vacation_log gid ''start'' rid]"
      by auto
    then show ?thesis
    proof cases
      case 1
      then have "calls ?w' = calls w @ [] \<and> (\<forall>c \<in> set []. lifecycle_call now gid rid d c)"
        by simp
      then show ?thesis by (rule exI)
    next
      case (2 vr)
      with \<open>status d = Approved\<close> \<open>date (start_date d) = date now\<close>
      have "calls ?w' = calls w @ [Add_roles gid (user_id d) [vr] Vacation_start]
          \<and> (\<forall>c \<in> set [Add_roles gid (user_id d) [vr] Vacation_start].
                lifecycle_call now gid rid d c)"
        by (simp add: lifecycle_call_def)
      then show ?thesis by (rule exI)
    next
      case (3 vr)
      with \<open>status d = Approved\<close> \<open>date (start_date d) = date now\<close>
      have "calls ?w' = calls w @ [Add_roles gid (user_id d) [vr] Vacation_start,
                             Vacation_log gid ''start'' rid]
          \<and> (\<forall>c \<in> set [Add_roles gid (user_id d) [vr] Vacation_start,
                             Vacation_log gid ''start'' rid].
                lifecycle_call now gid rid d c)"
        by (simp add: lifecycle_call_def)
      then show ?thesis by (rule exI)
    qed
  next
    case 3
    from item_end_calls [OF 3, of gid cfg rid w]
    obtain a b where ab: "calls ?w' = calls w @ a @ b @ [Vacation_log gid ''end'' rid]"
      "a = [] \<or> (\<exists>vr. a = [Remove_roles gid (user_id d) vr Vacation_end])"
      "b = [] \<or> (\<exists>rs. b = [Add_roles gid (user_id d) rs Roles_restored])"
      by blast
    from ab(2,3) 3
    have "\<forall>c \<in> set (a @ b @ [Vacation_log gid ''end'' rid]). lifecycle_call now gid rid d c"
      by (auto simp add: lifecycle_call_def)
    with ab(1) have "calls ?w' = calls w @ (a @ b @ [Vacation_log gid ''end'' rid])
        \<and> (\<forall>c \<in> set (a @ b @ [Vacation_log gid ''end'' rid]). lifecycle_call now gid rid d c)"
      by simp
    then show ?thesis by (rule exI)
  qed
qed

lemma fold_calls:
  "\<exists>added. calls (fold (check_vacation_item now gid cfg) xs w) = calls w @ added
     \<and> (\<forall>c \<in> set added. \<exists>rid d. (rid, d) \<in> set xs \<and> lifecycle_call now gid rid d c)"
proof (induction xs arbitrary: w)
  case Nil
  have "calls (fold (check_vacation_item now gid cfg) [] w) = calls w @ []
     \<and> (\<forall>c \<in> set []. \<exists>rid d. (rid, d) \<in> set [] \<and> lifecycle_call now gid rid d c)"
    by simp
  then show ?case by (rule exI)
next
  case (Cons x xs)
  obtain rid d where x: "x = (rid, d)" by (cases x)
  let ?w1 = "check_vacation_item now gid cfg (rid, d) w"
  from item_calls [of now gid cfg rid d w]
  obtain a where a: "calls ?w1 = calls w @ a" "\<forall>c \<in> set a. lifecycle_call now gid rid d c"
    by blast
  from Cons.IH [of ?w1]
  obtain b where b: "calls (fold (check_vacation_item now gid cfg) xs ?w1) = calls ?w1 @ b"
    "\<forall>c \<in> set b. \<exists>rid d. (rid, d) \<in> set xs \<and> lifecycle_call now gid rid d c"
    by blast
  have ja: "\<exists>rid' d'. (rid', d') \<in> set (x # xs) \<and> lifecycle_call now gid rid' d' c"
    if "c \<in> set a" for c
    using a(2) that by (auto simp add: x)
  have jb: "\<exists>rid' d'. (rid', d') \<in> set (x # xs) \<and> lifecycle_call now gid rid' d' c"
    if "c \<in> set b" for c
  proof -
    from b(2) that obtain rid' d' where "(rid', d') \<in> set xs" "lifecycle_call now gid rid' d' c"
      by blast
    then have "(rid', d') \<in> set (x # xs) \<and> lifecycle_call now gid rid' d' c" by simp
    then show ?thesis by blast
  qed
  from a(1) b(1) ja jb
  have "calls (fold (check_vacation_item now gid cfg) (x # xs) w) = calls w @ (a @ b)
     \<and> (\<forall>c \<in> set (a @ b). \<exists>rid d. (rid, d) \<in> set (x # xs) \<and> lifecycle_call now gid rid d c)"
    by (auto simp add: x)
  then show ?case by (rule exI)
qed

section \<open>Who gains and who loses a role in the lifecycle pass\<close>

lemma remove_vacation_role_gains:
  "wears_role (remove_vacation_role why cfg gid uid w) g u r \<Longrightarrow> wears_role w g u r"
  by (auto simp add: remove_vacation_role_def wears_role_def Let_def
      split: option.splits if_splits)

lemma remove_vacation_role_loses:
  "wears_role w g u r \<Longrightarrow> \<not> wears_role (remove_vacation_role why cfg gid uid w) g u r \<Longrightarrow>
   g = gid \<and> u = uid \<and> vacation_role_id cfg = Some r"
  by (auto simp add: remove_vacation_role_def wears_role_def Let_def
      split: option.splits if_splits)

lemma restore_saved_roles_gains:
  "\<not> wears_role w g u r \<Longrightarrow> wears_role (restore_saved_roles gid uid saved w) g u r \<Longrightarrow>
   g = gid \<and> u = uid"
  by (auto simp add: restore_saved_roles_def wears_role_def Let_def
      split: option.splits if_splits)

lemma restore_saved_roles_wears:
  "wears_role w g u r \<Longrightarrow> wears_role (restore_saved_roles gid uid saved w) g u r"
  by (auto simp add: restore_saved_roles_def wears_role_def Let_def split: option.splits)

lemma item_end_members:
  assumes "status d = Approved" and "date (start_date d) \<noteq> date now"
    and "date (end_date d) \<le> date now"
  shows "members (check_vacation_item now gid cfg (rid, d) w)
       = members (restore_saved_roles gid (user_id d) (saved_roles d)
                   (remove_vacation_role Vacation_end cfg gid (user_id d) w))"
  using assms by (simp add: check_vacation_item_def Let_def)

lemma item_start_members:
  assumes "status d = Approved" and "date (start_date d) = date now"
  shows "members (check_vacation_item now gid cfg (rid, d) w) = members w
       \<or> (\<exists>roles vr. members w (gid, user_id d) = Some roles \<and> vacation_role_id cfg = Some vr
            \<and> members (check_vacation_item now gid cfg (rid, d) w)
                = (members w)((gid, user_id d) \<mapsto> roles @ [vr]))"
  using assms
  by (auto simp add: check_vacation_item_def Let_def split: option.splits)

lemma wears_role_members: "members w' = members w \<Longrightarrow> wears_role w' g u r = wears_role w g u r"
  by (simp add: wears_role_def)

lemma item_gains:
  assumes "\<not> wears_role w g u r"
    and "wears_role (check_vacation_item now gid cfg (rid, d) w) g u r"
  shows "g = gid \<and> u = user_id d \<and> status d = Approved
       \<and> (date (start_date d) = date now \<and> vacation_role_id cfg = Some r
          \<or> date (start_date d) \<noteq> date now \<and> date (end_date d) \<le> date now)"
proof -
  let ?w' = "check_vacation_item now gid cfg (rid, d) w"
  consider "status d \<noteq> Approved \<or> date (start_date d) \<noteq> date now \<and> date now < date (end_date d)"
    | "status d = Approved" "date (start_date d) = date now"
    | "status d = Approved" "date (start_date d) \<noteq> date now" "date (end_date d) \<le> date now"
    by fastforce
  then show ?thesis
  proof cases
    case 1
    then have "?w' = w" by (rule item_idle)
    with assms show ?thesis by simp
  next
    case 2
    from item_start_members [OF 2, of gid cfg rid w] assms 2 show ?thesis
      by (auto simp add: wears_role_def split: option.splits if_splits)
  next
    case 3
    let ?w1 = "remove_vacation_role Vacation_end cfg gid (user_id d) w"
    let ?w2 = "restore_saved_roles gid (user_id d) (saved_roles d) ?w1"
    have "wears_role ?w2 g u r"
      using assms(2) wears_role_members [OF item_end_members [OF 3, of gid cfg rid w]] by simp
    moreover have "\<not> wears_role ?w1 g u r"
      using assms(1) remove_vacation_role_gains by blast
    ultimately have "g = gid \<and> u = user_id d" by (intro restore_saved_roles_gains)
    with 3 show ?thesis by simp
  qed
qed

lemma item_loses:
  assumes "wears_role w g u r"
    and "\<not> wears_role (check_vacation_item now gid cfg (rid, d) w) g u r"
  shows "g = gid \<and> u = user_id d \<and> status d = Approved
       \<and> date (start_date d) \<noteq> date now \<and> date (end_date d) \<le> date now
       \<and> vacation_role_id cfg = Some r"
proof -
  let ?w' = "check_vacation_item now gid cfg (rid, d) w"
  consider "status d \<noteq> Approved \<or> date (start_date d) \<noteq> date now \<and> date now < date (end_date d)"
    | "status d = Approved" "date (start_date d) = date now"
    | "status d = Approved" "date (start_date d) \<noteq> date now" "date (end_date d) \<le> date now"
    by fastforce
  then show ?thesis
  proof cases
    case 1
    then have "?w' = w" by (rule item_idle)
    with assms show ?thesis by simp
  next
    case 2
    from item_start_members [OF 2, of gid cfg rid w] assms 2 show ?thesis
      by (auto simp add: wears_role_def split: option.splits if_splits)
  next
    case 3
    let ?w1 = "remove_vacation_role Vacation_end cfg gid (user_id d) w"
    let ?w2 = "restore_saved_roles gid (user_id d) (saved_roles d) ?w1"
    have "\<not> wears_role ?w2 g u r"
      using assms(2) wears_role_members [OF item_end_members [OF 3, of gid cfg rid w]] by simp
    then have "\<not> wears_role ?w1 g u r"
      using restore_saved_roles_wears by blast
    with assms(1) have "g = gid \<and> u = user_id d \<and> vacation_role_id cfg = Some r"
      by (intro remove_vacation_role_loses)
    with 3 show ?thesis by simp
  qed
qed

lemma fold_gains:
  "\<not> wears_role w g u r \<Longrightarrow> wears_role (fold (check_vacation_item now gid cfg) xs w) g u r \<Longrightarrow>
   \<exists>rid d. (rid, d) \<in> set xs \<and> g = gid \<and> u = user_id d \<and> status d = Approved
       \<and> (date (start_date d) = date now \<and> vacation_role_id cfg = Some r
          \<or> date (start_date d) \<noteq> date now \<and> date (end_date d) \<le> date now)"
proof (induction xs arbitrary: w)
  case Nil
  then show ?case by simp
next
  case (Cons x xs)
  obtain rid d where x: "x = (rid, d)" by (cases x)
  let ?w1 = "check_vacation_item now gid cfg (rid, d) w"
  show ?case
  proof (cases "wears_role ?w1 g u r")
    case True
    from item_gains [OF Cons.prems(1) True] show ?thesis
      unfolding x by (intro exI [of _ rid] exI [of _ d]) simp
  next
    case False
    from Cons.prems(2) have "wears_role (fold (check_vacation_item now gid cfg) xs ?w1) g u r"
      by (simp add: x)
    from Cons.IH [OF False this] show ?thesis by auto
  qed
qed

lemma fold_loses:
  "wears_role w g u r \<Longrightarrow> \<not> wears_role (fold (check_vacation_item now gid cfg) xs w) g u r \<Longrightarrow>
   \<exists>rid d. (rid, d) \<in> set xs \<and> g = gid \<and> u = user_id d \<and> status d = Approved
       \<and> date (start_date d) \<noteq> date now \<and> date (end_date d) \<le> date now
       \<and> vacation_role_id cfg = Some r"
proof (induction xs arbitrary: w)
  case Nil
  then show ?case by simp
next
  case (Cons x xs)
  obtain rid d where x: "x = (rid, d)" by (cases x)
  let ?w1 = "check_vacation_item now gid cfg (rid, d) w"
  show ?case
  proof (cases "wears_role ?w1 g u r")
    case False
    from item_loses [OF Cons.prems(1) False] show ?thesis
      unfolding x by (intro exI [of _ rid] exI [of _ d]) simp
  next
    case True
    from Cons.prems(2) have "\<not> wears_role (fold (check_vacation_item now gid cfg) xs ?w1) g u r"
      by (simp add: x)
    from Cons.IH [OF True this] show ?thesis by auto
  qed
qed

section \<open>A member whose role cannot be removed keeps it\<close>

lemma remove_vacation_role_platform [simp]:
  "guild_roles (remove_vacation_role why cfg gid uid w) = guild_roles w"
  "remove_roles_raises (remove_vacation_role why cfg gid uid w) = remove_roles_raises w"
  "add_roles_raises (remove_vacation_role why cfg gid uid w) = add_roles_raises w"
  by (simp_all add: remove_vacation_role_def Let_def split: option.splits)

lemma restore_saved_roles_platform [simp]:
  "guild_roles (restore_saved_roles gid uid saved w) = guild_roles w"
  "remove_roles_raises (restore_saved_roles gid uid saved w) = remove_roles_raises w"
  "add_roles_raises (restore_saved_roles gid uid saved w) = add_roles_raises w"
  by (simp_all add: restore_saved_roles_def Let_def split: option.splits)



lemma wears_role_stores [simp]:
  "wears_role (w\<lparr>vacation_data := vd\<rparr>) g u r = wears_role w g u r"
  "wears_role (w\<lparr>vacation_requests := vr\<rparr>) g u r = wears_role w g u r"
  "wears_role (w\<lparr>calls := cs\<rparr>) g u r = wears_role w g u r"
  "wears_role (send_vacation_log gid act rid w) g u r = wears_role w g u r"
  by (simp_all add: wears_role_def send_vacation_log_def)







section \<open>The whole pass, guild after guild\<close>

lemma item_distinct:
  "distinct (map fst (vacation_data w)) \<Longrightarrow>
   distinct (map fst (vacation_data (check_vacation_item now gid cfg item w)))"
  by (cases item)
     (simp add: check_vacation_item_def Let_def AList.distinct_update AList.distinct_delete
        split: option.splits)

lemma fold_distinct:
  "distinct (map fst (vacation_data w)) \<Longrightarrow>
   distinct (map fst (vacation_data (fold (check_vacation_item now gid cfg) xs w)))"
  by (induction xs arbitrary: w) (simp_all add: item_distinct)

lemma turn_distinct:
  "distinct (map fst (vacation_data w)) \<Longrightarrow>
   distinct (map fst (vacation_data (check_vacations_guild now gid cfg w)))"
  by (simp add: check_vacations_guild_def fold_distinct)

lemma item_entry:
  "map_of (vacation_data w) rid = Some d \<Longrightarrow>
   map_of (vacation_data (check_vacation_item now gid cfg (rid, d) w)) rid = None
   \<or> (\<exists>s. map_of (vacation_data (check_vacation_item now gid cfg (rid, d) w)) rid
            = Some (d\<lparr>saved_roles := s\<rparr>))"
proof -
  have "d = d\<lparr>saved_roles := saved_roles d\<rparr>" by simp
  then have same: "\<exists>s. d = d\<lparr>saved_roles := s\<rparr>" by (rule exI)
  assume "map_of (vacation_data w) rid = Some d"
  with same show ?thesis
    by (auto simp add: check_vacation_item_def Let_def AList.update_conv' AList.delete_conv'
        split: option.splits)
qed

lemma turn_entry:
  assumes "distinct (map fst (vacation_data w))"
  shows "map_of (vacation_data (check_vacations_guild now gid cfg w)) rid = None
       \<or> (\<exists>d s. map_of (vacation_data w) rid = Some d
              \<and> map_of (vacation_data (check_vacations_guild now gid cfg w)) rid
                  = Some (d\<lparr>saved_roles := s\<rparr>))"
proof (cases "map_of (vacation_data w) rid")
  case None
  then have "rid \<notin> fst ` set (vacation_data w)" by (simp add: map_of_eq_None_iff)
  from fold_other_keys [OF this, of now gid cfg w] None show ?thesis
    by (simp add: check_vacations_guild_def)
next
  case (Some d)
  with assms obtain ys zs where xs: "vacation_data w = ys @ (rid, d) # zs"
    and ys: "rid \<notin> fst ` set ys" and zs: "rid \<notin> fst ` set zs"
    by (rule split_distinct)
  let ?f = "check_vacation_item now gid cfg"
  have eq: "check_vacations_guild now gid cfg w = fold ?f zs (?f (rid, d) (fold ?f ys w))"
    by (simp add: check_vacations_guild_def xs)
  have mid: "map_of (vacation_data (fold ?f ys w)) rid = Some d"
    using fold_other_keys [OF ys, of now gid cfg w] Some by simp
  from item_entry [OF mid, of now gid cfg]
    fold_other_keys [OF zs, of now gid cfg "?f (rid, d) (fold ?f ys w)"] Some
  show ?thesis unfolding eq by auto
qed

lemma pass_absent:
  "map_of (vacation_data w) rid = None \<Longrightarrow>
   map_of (vacation_data (check_vacations guilds w)) rid = None
   \<and> map_of (vacation_requests (check_vacations guilds w)) rid = map_of (vacation_requests w) rid"
proof (induction guilds arbitrary: w)
  case Nil
  then show ?case by simp
next
  case (Cons g guilds)
  obtain gid cfg now where g: "g = (gid, cfg, now)" by (cases g)
  from Cons.prems have "rid \<notin> fst ` set (vacation_data w)" by (simp add: map_of_eq_None_iff)
  from fold_other_keys [OF this, of now gid cfg w] Cons.prems
  have "map_of (vacation_data (check_vacations_guild now gid cfg w)) rid = None"
    "map_of (vacation_requests (check_vacations_guild now gid cfg w)) rid
       = map_of (vacation_requests w) rid"
    by (simp_all add: check_vacations_guild_def)
  with Cons.IH [of "check_vacations_guild now gid cfg w"] show ?case by (simp add: g)
qed

lemma turn_member:
  assumes "distinct (map fst (vacation_data w))"
    and "map_of (vacation_data (check_vacations_guild now gid cfg w)) rid = Some d'"
  obtains d s where "map_of (vacation_data w) rid = Some d" "d' = d\<lparr>saved_roles := s\<rparr>"
  using turn_entry [OF assms(1), of now gid cfg rid] assms(2) by auto

lemma pass_calls:
  assumes "distinct (map fst (vacation_data w))"
  shows "\<exists>added. calls (check_vacations guilds w) = calls w @ added
     \<and> (\<forall>c \<in> set added. \<exists>gid cfg now rid d. (gid, cfg, now) \<in> set guilds
            \<and> map_of (vacation_data w) rid = Some d \<and> lifecycle_call now gid rid d c)"
  using assms
proof (induction guilds arbitrary: w)
  case Nil
  have "calls (check_vacations [] w) = calls w @ []
     \<and> (\<forall>c \<in> set []. \<exists>gid cfg now rid d. (gid, cfg, now) \<in> set []
            \<and> map_of (vacation_data w) rid = Some d \<and> lifecycle_call now gid rid d c)"
    by simp
  then show ?case by (rule exI)
next
  case (Cons t guilds)
  obtain gid cfg now where t: "t = (gid, cfg, now)" by (cases t)
  let ?w1 = "check_vacations_guild now gid cfg w"
  have d1: "distinct (map fst (vacation_data ?w1))"
    using Cons.prems by (rule turn_distinct)
  from fold_calls [of now gid cfg "vacation_data w" w]
  obtain a where a: "calls ?w1 = calls w @ a"
    "\<forall>c \<in> set a. \<exists>rid d. (rid, d) \<in> set (vacation_data w) \<and> lifecycle_call now gid rid d c"
    unfolding check_vacations_guild_def by blast
  from Cons.IH [OF d1]
  obtain b where b: "calls (check_vacations guilds ?w1) = calls ?w1 @ b"
    "\<forall>c \<in> set b. \<exists>gid' cfg' now' rid d'. (gid', cfg', now') \<in> set guilds
        \<and> map_of (vacation_data ?w1) rid = Some d' \<and> lifecycle_call now' gid' rid d' c"
    by blast
  have ja: "\<exists>gid' cfg' now' rid d. (gid', cfg', now') \<in> set (t # guilds)
        \<and> map_of (vacation_data w) rid = Some d \<and> lifecycle_call now' gid' rid d c"
    if "c \<in> set a" for c
  proof -
    from a(2) that obtain rid d where "(rid, d) \<in> set (vacation_data w)"
      "lifecycle_call now gid rid d c" by blast
    with Cons.prems have "(gid, cfg, now) \<in> set (t # guilds)
        \<and> map_of (vacation_data w) rid = Some d \<and> lifecycle_call now gid rid d c"
      by (simp add: t)
    then show ?thesis by blast
  qed
  have jb: "\<exists>gid' cfg' now' rid d. (gid', cfg', now') \<in> set (t # guilds)
        \<and> map_of (vacation_data w) rid = Some d \<and> lifecycle_call now' gid' rid d c"
    if "c \<in> set b" for c
  proof -
    from b(2) that obtain gid' cfg' now' rid d' where g: "(gid', cfg', now') \<in> set guilds"
      "map_of (vacation_data ?w1) rid = Some d'" "lifecycle_call now' gid' rid d' c" by blast
    from Cons.prems g(2) obtain d s where "map_of (vacation_data w) rid = Some d"
      "d' = d\<lparr>saved_roles := s\<rparr>" by (rule turn_member)
    with g have "(gid', cfg', now') \<in> set (t # guilds)
        \<and> map_of (vacation_data w) rid = Some d \<and> lifecycle_call now' gid' rid d c"
      by simp
    then show ?thesis by blast
  qed
  from a(1) b(1) ja jb
  have "calls (check_vacations (t # guilds) w) = calls w @ (a @ b)
     \<and> (\<forall>c \<in> set (a @ b). \<exists>gid' cfg' now' rid d. (gid', cfg', now') \<in> set (t # guilds)
            \<and> map_of (vacation_data w) rid = Some d \<and> lifecycle_call now' gid' rid d c)"
    by (auto simp add: t)
  then show ?case by (rule exI)
qed

lemma pass_gains:
  assumes "distinct (map fst (vacation_data w))"
    and "\<not> wears_role w g u r" and "wears_role (check_vacations guilds w) g u r"
  shows "\<exists>cfg now rid d. (g, cfg, now) \<in> set guilds
       \<and> map_of (vacation_data w) rid = Some d \<and> user_id d = u \<and> status d = Approved
       \<and> (date (start_date d) = date now \<and> vacation_role_id cfg = Some r
          \<or> date (start_date d) \<noteq> date now \<and> date (end_date d) \<le> date now)"
  using assms
proof (induction guilds arbitrary: w)
  case Nil
  then show ?case by simp
next
  case (Cons t guilds)
  obtain gid cfg now where t: "t = (gid, cfg, now)" by (cases t)
  let ?w1 = "check_vacations_guild now gid cfg w"
  have d1: "distinct (map fst (vacation_data ?w1))"
    using Cons.prems(1) by (rule turn_distinct)
  show ?case
  proof (cases "wears_role ?w1 g u r")
    case True
    from fold_gains [OF Cons.prems(2) True [unfolded check_vacations_guild_def]]
    obtain rid d where "(rid, d) \<in> set (vacation_data w)" "g = gid" "u = user_id d"
      "status d = Approved"
      "date (start_date d) = date now \<and> vacation_role_id cfg = Some r
       \<or> date (start_date d) \<noteq> date now \<and> date (end_date d) \<le> date now"
      by blast
    with Cons.prems(1) have "(g, cfg, now) \<in> set (t # guilds)
       \<and> map_of (vacation_data w) rid = Some d \<and> user_id d = u \<and> status d = Approved
       \<and> (date (start_date d) = date now \<and> vacation_role_id cfg = Some r
          \<or> date (start_date d) \<noteq> date now \<and> date (end_date d) \<le> date now)"
      by (simp add: t)
    then show ?thesis by blast
  next
    case False
    from Cons.prems(3) have "wears_role (check_vacations guilds ?w1) g u r" by (simp add: t)
    from Cons.IH [OF d1 False this]
    obtain cfg' now' rid d' where g: "(g, cfg', now') \<in> set guilds"
      "map_of (vacation_data ?w1) rid = Some d'" "user_id d' = u" "status d' = Approved"
      "date (start_date d') = date now' \<and> vacation_role_id cfg' = Some r
       \<or> date (start_date d') \<noteq> date now' \<and> date (end_date d') \<le> date now'"
      by blast
    from Cons.prems(1) g(2) obtain d s where "map_of (vacation_data w) rid = Some d"
      "d' = d\<lparr>saved_roles := s\<rparr>" by (rule turn_member)
    with g have "(g, cfg', now') \<in> set (t # guilds)
       \<and> map_of (vacation_data w) rid = Some d \<and> user_id d = u \<and> status d = Approved
       \<and> (date (start_date d) = date now' \<and> vacation_role_id cfg' = Some r
          \<or> date (start_date d) \<noteq> date now' \<and> date (end_date d) \<le> date now')"
      by simp
    then show ?thesis by blast
  qed
qed

lemma pass_loses:
  assumes "distinct (map fst (vacation_data w))"
    and "wears_role w g u r" and "\<not> wears_role (check_vacations guilds w) g u r"
  shows "\<exists>cfg now rid d. (g, cfg, now) \<in> set guilds
       \<and> map_of (vacation_data w) rid = Some d \<and> user_id d = u \<and> status d = Approved
       \<and> date (start_date d) \<noteq> date now \<and> date (end_date d) \<le> date now
       \<and> vacation_role_id cfg = Some r"
  using assms
proof (induction guilds arbitrary: w)
  case Nil
  then show ?case by simp
next
  case (Cons t guilds)
  obtain gid cfg now where t: "t = (gid, cfg, now)" by (cases t)
  let ?w1 = "check_vacations_guild now gid cfg w"
  have d1: "distinct (map fst (vacation_data ?w1))"
    using Cons.prems(1) by (rule turn_distinct)
  show ?case
  proof (cases "wears_role ?w1 g u r")
    case False
    from fold_loses [OF Cons.prems(2) False [unfolded check_vacations_guild_def]]
    obtain rid d where "(rid, d) \<in> set (vacation_data w)" "g = gid" "u = user_id d"
      "status d = Approved" "date (start_date d) \<noteq> date now" "date (end_date d) \<le> date now"
      "vacation_role_id cfg = Some r"
      by blast
    with Cons.prems(1) have "(g, cfg, now) \<in> set (t # guilds)
       \<and> map_of (vacation_data w) rid = Some d \<and> user_id d = u \<and> status d = Approved
       \<and> date (start_date d) \<noteq> date now \<and> date (end_date d) \<le> date now
       \<and> vacation_role_id cfg = Some r"
      by (simp add: t)
    then show ?thesis by blast
  next
    case True
    from Cons.prems(3) have "\<not> wears_role (check_vacations guilds ?w1) g u r" by (simp add: t)
    from Cons.IH [OF d1 True this]
    obtain cfg' now' rid d' where g: "(g, cfg', now') \<in> set guilds"
      "map_of (vacation_data ?w1) rid = Some d'" "user_id d' = u" "status d' = Approved"
      "date (start_date d') \<noteq> date now'" "date (end_date d') \<le> date now'"
      "vacation_role_id cfg' = Some r"
      by blast
    from Cons.prems(1) g(2) obtain d s where "map_of (vacation_data w) rid = Some d"
      "d' = d\<lparr>saved_roles := s\<rparr>" by (rule turn_member)
    with g have "(g, cfg', now') \<in> set (t # guilds)
       \<and> map_of (vacation_data w) rid = Some d \<and> user_id d = u \<and> status d = Approved
       \<and> date (start_date d) \<noteq> date now' \<and> date (end_date d) \<le> date now'
       \<and> vacation_role_id cfg' = Some r"
      by simp
    then show ?thesis by blast
  qed
qed

lemma pass_not_starting_all:
  assumes "distinct (map fst (vacation_data w))" and "map_of (vacation_data w) rid = Some d"
    and "\<forall>(gid, cfg, now) \<in> set guilds. date (start_date d) \<noteq> date now"
  shows "map_of (vacation_data (check_vacations guilds w)) rid = Some d
         \<and> map_of (vacation_requests (check_vacations guilds w)) rid
             = map_of (vacation_requests w) rid
       \<or> status d = Approved
         \<and> (\<exists>gid cfg now. (gid, cfg, now) \<in> set guilds \<and> date (end_date d) \<le> date now)
         \<and> map_of (vacation_data (check_vacations guilds w)) rid = None
         \<and> map_of (vacation_requests (check_vacations guilds w)) rid
             = Some (d\<lparr>status := Completed\<rparr>)"
  using assms
proof (induction guilds arbitrary: w)
  case Nil
  then show ?case by simp
next
  case (Cons t guilds)
  obtain gid cfg now where t: "t = (gid, cfg, now)" by (cases t)
  let ?w1 = "check_vacations_guild now gid cfg w"
  from Cons.prems(3) have now: "date (start_date d) \<noteq> date now"
    and rest: "\<forall>(gid, cfg, now) \<in> set guilds. date (start_date d) \<noteq> date now"
    by (simp_all add: t)
  from pass_not_starting [OF Cons.prems(1,2) now, of gid cfg]
  show ?case
  proof
    assume a: "map_of (vacation_data ?w1) rid = Some d
         \<and> map_of (vacation_requests ?w1) rid = map_of (vacation_requests w) rid"
    then have "map_of (vacation_data ?w1) rid = Some d" by simp
    from Cons.IH [OF turn_distinct [OF Cons.prems(1)] this rest]
    show ?thesis
    proof
      assume "map_of (vacation_data (check_vacations guilds ?w1)) rid = Some d
         \<and> map_of (vacation_requests (check_vacations guilds ?w1)) rid
             = map_of (vacation_requests ?w1) rid"
      with a show ?thesis by (simp add: t)
    next
      assume b: "status d = Approved
         \<and> (\<exists>gid cfg now. (gid, cfg, now) \<in> set guilds \<and> date (end_date d) \<le> date now)
         \<and> map_of (vacation_data (check_vacations guilds ?w1)) rid = None
         \<and> map_of (vacation_requests (check_vacations guilds ?w1)) rid
             = Some (d\<lparr>status := Completed\<rparr>)"
      then obtain gid' cfg' now' where "(gid', cfg', now') \<in> set guilds"
        "date (end_date d) \<le> date now'" by blast
      then have "(gid', cfg', now') \<in> set (t # guilds) \<and> date (end_date d) \<le> date now'"
        by simp
      then have "\<exists>gid cfg now. (gid, cfg, now) \<in> set (t # guilds) \<and> date (end_date d) \<le> date now"
        by blast
      with b show ?thesis unfolding t check_vacations.simps by blast
    qed
  next
    assume a: "status d = Approved \<and> date (end_date d) \<le> date now
         \<and> map_of (vacation_data ?w1) rid = None
         \<and> map_of (vacation_requests ?w1) rid = Some (d\<lparr>status := Completed\<rparr>)"
    then have "map_of (vacation_data ?w1) rid = None" by simp
    from pass_absent [OF this, of guilds] a
    have fin: "status d = Approved"
      "map_of (vacation_data (check_vacations (t # guilds) w)) rid = None"
      "map_of (vacation_requests (check_vacations (t # guilds) w)) rid
         = Some (d\<lparr>status := Completed\<rparr>)"
      by (simp_all add: t)
    from a have "(gid, cfg, now) \<in> set (t # guilds) \<and> date (end_date d) \<le> date now"
      by (simp add: t)
    then have "\<exists>gid cfg now. (gid, cfg, now) \<in> set (t # guilds) \<and> date (end_date d) \<le> date now"
      by blast
    with fin show ?thesis by blast
  qed
qed

lemma pass_not_ending_all:
  assumes "distinct (map fst (vacation_data w))" and "map_of (vacation_data w) rid = Some d"
    and "\<forall>(gid, cfg, now) \<in> set guilds. date now < date (end_date d)"
  shows "(\<exists>s. map_of (vacation_data (check_vacations guilds w)) rid = Some (d\<lparr>saved_roles := s\<rparr>))
       \<and> (map_of (vacation_requests (check_vacations guilds w)) rid
            = map_of (vacation_requests w) rid
          \<or> rid \<in> shared w
            \<and> (\<exists>s. map_of (vacation_requests (check_vacations guilds w)) rid
                   = Some (d\<lparr>saved_roles := s\<rparr>)))"
  using assms
proof (induction guilds arbitrary: w d)
  case Nil
  have "\<exists>s. map_of (vacation_data w) rid = Some (d\<lparr>saved_roles := s\<rparr>)"
    by (rule exI [of _ "saved_roles d"]) (simp add: Nil.prems(2))
  then show ?case by simp
next
  case (Cons t guilds)
  obtain gid cfg now where t: "t = (gid, cfg, now)" by (cases t)
  let ?w1 = "check_vacations_guild now gid cfg w"
  let ?w' = "check_vacations guilds ?w1"
  from Cons.prems(3) have now: "date now < date (end_date d)"
    and rest: "\<forall>(gid, cfg, now) \<in> set guilds. date now < date (end_date d)"
    by (simp_all add: t)
  from pass_not_ending [OF Cons.prems(1,2) now, of gid cfg]
  obtain s1 where d1: "map_of (vacation_data ?w1) rid = Some (d\<lparr>saved_roles := s1\<rparr>)"
    and req: "map_of (vacation_requests ?w1) rid = map_of (vacation_requests w) rid
          \<or> rid \<in> shared w
            \<and> (\<exists>s. map_of (vacation_requests ?w1) rid = Some (d\<lparr>saved_roles := s\<rparr>))"
    and sh: "rid \<in> shared ?w1 \<longleftrightarrow> rid \<in> shared w"
    by blast
  have rest': "\<forall>(gid, cfg, now) \<in> set guilds. date now < date (end_date (d\<lparr>saved_roles := s1\<rparr>))"
    using rest by simp
  have twice: "d\<lparr>saved_roles := s1, saved_roles := s\<rparr> = d\<lparr>saved_roles := s\<rparr>" for s
    by simp
  from Cons.IH [OF turn_distinct [OF Cons.prems(1)] d1 rest']
  have data: "\<exists>s. map_of (vacation_data ?w') rid = Some (d\<lparr>saved_roles := s\<rparr>)"
    and req': "map_of (vacation_requests ?w') rid = map_of (vacation_requests ?w1) rid
          \<or> rid \<in> shared ?w1
            \<and> (\<exists>s. map_of (vacation_requests ?w') rid = Some (d\<lparr>saved_roles := s\<rparr>))"
    unfolding twice by blast+
  have "map_of (vacation_requests ?w') rid = map_of (vacation_requests w) rid
          \<or> rid \<in> shared w
            \<and> (\<exists>s. map_of (vacation_requests ?w') rid = Some (d\<lparr>saved_roles := s\<rparr>))"
  proof (cases "rid \<in> shared w
            \<and> (\<exists>s. map_of (vacation_requests ?w') rid = Some (d\<lparr>saved_roles := s\<rparr>))")
    case True
    then show ?thesis by (rule disjI2)
  next
    case False
    with req' sh
    have one: "map_of (vacation_requests ?w') rid = map_of (vacation_requests ?w1) rid"
      by blast
    with False req
    have "map_of (vacation_requests ?w1) rid = map_of (vacation_requests w) rid"
      by metis
    with one show ?thesis by simp
  qed
  with data show ?case unfolding t check_vacations.simps by (rule conjI)
qed

lemma pass_idle:
  assumes "\<forall>(gid, cfg, now) \<in> set guilds. \<forall>(rid, d) \<in> set (vacation_data w).
             status d = Approved \<longrightarrow>
             date (start_date d) \<noteq> date now \<and> date now < date (end_date d)"
  shows "check_vacations guilds w = w"
  using assms
proof (induction guilds)
  case Nil
  show ?case by simp
next
  case (Cons t guilds)
  obtain gid cfg now where t: "t = (gid, cfg, now)" by (cases t)
  from Cons.prems have "\<forall>(rid, d) \<in> set (vacation_data w). status d = Approved \<longrightarrow>
             date (start_date d) \<noteq> date now \<and> date now < date (end_date d)"
    by (simp add: t)
  then have "check_vacations_guild now gid cfg w = w"
    unfolding check_vacations_guild_def by (rule fold_idle)
  with Cons show ?case by (simp add: t)
qed




section \<open>The end of a vacation when the role cannot be removed\<close>

lemma dates_before:
  "date (day_2021_07_29 - timedelta_days n) = 738000 - n"
  by (simp add: day_2021_07_29_def date_def usec_per_day_def timedelta_days_def)





section \<open>No activation before the start, no end before the end date\<close>

lemma check_world7:
  "check_vacations [(1, cfg1, day_2021_07_29)] world7
   = world7\<lparr>vacation_requests := [(''r1'', request1\<lparr>saved_roles := [5]\<rparr>),
                                   (''r5'', request5\<lparr>status := Completed\<rparr>)],
            vacation_data := [(''r1'', request1\<lparr>saved_roles := [5]\<rparr>)],
            members := (members world7)((1, 7) \<mapsto> [5, 900], (1, 8) \<mapsto> [5]),
            calls := [Add_roles 1 7 [900] Vacation_start, Vacation_log 1 ''start'' ''r1'',
                      Remove_roles 1 8 900 Vacation_end, Vacation_log 1 ''end'' ''r5''],
            shared := {''r1'', ''r5''} - {''r5''}\<rparr>"
  by (simp add: check_vacations_guild_def check_vacation_item_def world7_def world0_def
      request5_def request1_def cfg1_def dates_july dates_before Let_def
      remove_vacation_role_def restore_saved_roles_def send_vacation_log_def
      change_in_data_def AList.delete_eq)

lemma check_world6:
  "check_vacations [(1, cfg1, day_2021_07_29)] world6
   = world6\<lparr>vacation_requests := [(''r1'', request1\<lparr>saved_roles := [5]\<rparr>)],
            vacation_data := [(''r1'', request1\<lparr>saved_roles := [5]\<rparr>)],
            members := (members world6)((1, 7) \<mapsto> [5, 900]),
            calls := [Add_roles 1 7 [900] Vacation_start, Vacation_log 1 ''start'' ''r1'']\<rparr>"
  by (simp add: check_vacations_guild_def check_vacation_item_def world6_def world1_def
      world0_def request1_def cfg1_def dates_july Let_def send_vacation_log_def
      change_in_data_def)

text \<open>
  C4. A scheduler pass runs one turn for each guild, and each turn reads the clock. Take
  the pass from a state whose \<open>vacation_data\<close> has one entry for each id.

  \<^item> The calls of the pass are the calls made before it followed by added ones, and each
    added call belongs to an approved request of \<open>vacation_data\<close> and to a turn: either it
    is a call of the activation (the grant of the vacation role with the start reason, the
    \<^verbatim>\<open>"start"\<close> log entry) and the start date is the date of that turn's reading, or it is
    a call of the expiry (the removal of the vacation role with the end reason, the
    restoration of the saved roles, the \<^verbatim>\<open>"end"\<close> log entry) and the end date is that date
    or an earlier one.
  \<^item> A member who gains a role in the pass has an approved request that starts on the date
    of a reading of the member's guild, the role being the vacation role, or one whose end
    date is reached; a member who loses a role loses the vacation role and has an approved
    request whose end date is reached.
  \<^item> A request whose start date is later than every reading keeps its entry as it is,
    saved roles included, in both stores, unless it is approved and its end date is
    reached in some turn, which completes it.
  \<^item> A request whose end date is later than every reading stays in \<open>vacation_data\<close>, and
    nothing but its saved roles changes, there and in \<open>vacation_requests\<close>, where the
    entry changes only when the two stores share it.
  \<^item> When no approved request starts on the date of a reading or has its end date
    reached, the pass changes nothing at all.
\<close>

theorem no_time_travel:
  assumes "distinct (map fst (vacation_data w))"
  shows "(\<exists>added. calls (check_vacations guilds w) = calls w @ added
            \<and> (\<forall>c \<in> set added. \<exists>gid cfg now rid d. (gid, cfg, now) \<in> set guilds
                  \<and> map_of (vacation_data w) rid = Some d \<and> status d = Approved
                  \<and> (date (start_date d) = date now \<and> activation_call gid rid d c
                     \<or> date (start_date d) \<noteq> date now \<and> date (end_date d) \<le> date now
                       \<and> expiry_call gid rid d c)))
       \<and> (\<not> wears_role w g u r \<and> wears_role (check_vacations guilds w) g u r \<longrightarrow>
            (\<exists>cfg now rid d. (g, cfg, now) \<in> set guilds
                \<and> map_of (vacation_data w) rid = Some d \<and> user_id d = u \<and> status d = Approved
                \<and> (date (start_date d) = date now \<and> vacation_role_id cfg = Some r
                   \<or> date (start_date d) \<noteq> date now \<and> date (end_date d) \<le> date now)))
       \<and> (wears_role w g u r \<and> \<not> wears_role (check_vacations guilds w) g u r \<longrightarrow>
            (\<exists>cfg now rid d. (g, cfg, now) \<in> set guilds
                \<and> map_of (vacation_data w) rid = Some d \<and> user_id d = u \<and> status d = Approved
                \<and> date (start_date d) \<noteq> date now \<and> date (end_date d) \<le> date now
                \<and> vacation_role_id cfg = Some r))
       \<and> (map_of (vacation_data w) rid = Some d
            \<and> (\<forall>(gid, cfg, now) \<in> set guilds. date now < date (start_date d)) \<longrightarrow>
            map_of (vacation_data (check_vacations guilds w)) rid = Some d
              \<and> map_of (vacation_requests (check_vacations guilds w)) rid
                  = map_of (vacation_requests w) rid
            \<or> status d = Approved
              \<and> (\<exists>gid cfg now. (gid, cfg, now) \<in> set guilds \<and> date (end_date d) \<le> date now)
              \<and> map_of (vacation_data (check_vacations guilds w)) rid = None
              \<and> map_of (vacation_requests (check_vacations guilds w)) rid
                  = Some (d\<lparr>status := Completed\<rparr>))
       \<and> (map_of (vacation_data w) rid = Some d
            \<and> (\<forall>(gid, cfg, now) \<in> set guilds. date now < date (end_date d)) \<longrightarrow>
            (\<exists>s. map_of (vacation_data (check_vacations guilds w)) rid
                   = Some (d\<lparr>saved_roles := s\<rparr>))
            \<and> (map_of (vacation_requests (check_vacations guilds w)) rid
                 = map_of (vacation_requests w) rid
               \<or> rid \<in> shared w
                 \<and> (\<exists>s. map_of (vacation_requests (check_vacations guilds w)) rid
                        = Some (d\<lparr>saved_roles := s\<rparr>))))
       \<and> ((\<forall>(gid, cfg, now) \<in> set guilds. \<forall>(rid, d) \<in> set (vacation_data w).
              status d = Approved \<longrightarrow>
              date (start_date d) \<noteq> date now \<and> date now < date (end_date d)) \<longrightarrow>
            check_vacations guilds w = w)"
proof (intro conjI impI)
  from pass_calls [OF assms, of guilds]
  show "\<exists>added. calls (check_vacations guilds w) = calls w @ added
            \<and> (\<forall>c \<in> set added. \<exists>gid cfg now rid d. (gid, cfg, now) \<in> set guilds
                  \<and> map_of (vacation_data w) rid = Some d \<and> status d = Approved
                  \<and> (date (start_date d) = date now \<and> activation_call gid rid d c
                     \<or> date (start_date d) \<noteq> date now \<and> date (end_date d) \<le> date now
                       \<and> expiry_call gid rid d c))"
    unfolding lifecycle_call_def by simp
next
  assume "\<not> wears_role w g u r \<and> wears_role (check_vacations guilds w) g u r"
  then show "\<exists>cfg now rid d. (g, cfg, now) \<in> set guilds
                \<and> map_of (vacation_data w) rid = Some d \<and> user_id d = u \<and> status d = Approved
                \<and> (date (start_date d) = date now \<and> vacation_role_id cfg = Some r
                   \<or> date (start_date d) \<noteq> date now \<and> date (end_date d) \<le> date now)"
    using pass_gains [OF assms, of g u r guilds] by simp
next
  assume "wears_role w g u r \<and> \<not> wears_role (check_vacations guilds w) g u r"
  then show "\<exists>cfg now rid d. (g, cfg, now) \<in> set guilds
                \<and> map_of (vacation_data w) rid = Some d \<and> user_id d = u \<and> status d = Approved
                \<and> date (start_date d) \<noteq> date now \<and> date (end_date d) \<le> date now
                \<and> vacation_role_id cfg = Some r"
    using pass_loses [OF assms, of g u r guilds] by simp
next
  let ?w' = "check_vacations guilds w"
  assume a: "map_of (vacation_data w) rid = Some d
            \<and> (\<forall>(gid, cfg, now) \<in> set guilds. date now < date (start_date d))"
  then have "\<forall>(gid, cfg, now) \<in> set guilds. date (start_date d) \<noteq> date now" by auto
  with a assms
  show "map_of (vacation_data ?w') rid = Some d
              \<and> map_of (vacation_requests ?w') rid = map_of (vacation_requests w) rid
            \<or> status d = Approved
              \<and> (\<exists>gid cfg now. (gid, cfg, now) \<in> set guilds \<and> date (end_date d) \<le> date now)
              \<and> map_of (vacation_data ?w') rid = None
              \<and> map_of (vacation_requests ?w') rid = Some (d\<lparr>status := Completed\<rparr>)"
    by (intro pass_not_starting_all) simp_all
next
  let ?w' = "check_vacations guilds w"
  assume a: "map_of (vacation_data w) rid = Some d
            \<and> (\<forall>(gid, cfg, now) \<in> set guilds. date now < date (end_date d))"
  with pass_not_ending_all [OF assms, of rid d guilds]
  show "\<exists>s. map_of (vacation_data ?w') rid = Some (d\<lparr>saved_roles := s\<rparr>)" by simp
next
  let ?w' = "check_vacations guilds w"
  assume a: "map_of (vacation_data w) rid = Some d
            \<and> (\<forall>(gid, cfg, now) \<in> set guilds. date now < date (end_date d))"
  with pass_not_ending_all [OF assms, of rid d guilds]
  show "map_of (vacation_requests ?w') rid = map_of (vacation_requests w) rid
               \<or> rid \<in> shared w
                 \<and> (\<exists>s. map_of (vacation_requests ?w') rid = Some (d\<lparr>saved_roles := s\<rparr>))"
    by simp
next
  assume "\<forall>(gid, cfg, now) \<in> set guilds. \<forall>(rid, d) \<in> set (vacation_data w).
              status d = Approved \<longrightarrow>
              date (start_date d) \<noteq> date now \<and> date now < date (end_date d)"
  then show "check_vacations guilds w = w" by (rule pass_idle)
qed

theorem no_time_travel_witness:
  "distinct (map fst (vacation_data world7))
   \<and> calls (check_vacations [(1, cfg1, day_2021_07_29)] world7)
       = calls world7 @ [Add_roles 1 7 [900] Vacation_start, Vacation_log 1 ''start'' ''r1'',
                         Remove_roles 1 8 900 Vacation_end, Vacation_log 1 ''end'' ''r5'']
   \<and> \<not> wears_role world7 1 7 900
   \<and> wears_role (check_vacations [(1, cfg1, day_2021_07_29)] world7) 1 7 900
   \<and> (\<exists>rid d. map_of (vacation_data world7) rid = Some d \<and> user_id d = 7
          \<and> status d = Approved \<and> date (start_date d) = date day_2021_07_29)
   \<and> wears_role world7 1 8 900
   \<and> \<not> wears_role (check_vacations [(1, cfg1, day_2021_07_29)] world7) 1 8 900
   \<and> (\<exists>rid d. map_of (vacation_data world7) rid = Some d \<and> user_id d = 8
          \<and> status d = Approved \<and> date (start_date d) \<noteq> date day_2021_07_29
          \<and> date (end_date d) \<le> date day_2021_07_29)
   \<and> distinct (map fst (vacation_data world2))
   \<and> map_of (vacation_data world2) ''r2'' = Some request2
   \<and> date day_2021_07_29 < date (start_date request2)
   \<and> date day_2021_07_29 < date (end_date request2)
   \<and> map_of (vacation_data (check_vacations [(1, cfg1, day_2021_07_29)] world2)) ''r2''
       = Some request2
   \<and> map_of (vacation_requests (check_vacations [(1, cfg1, day_2021_07_29)] world2)) ''r2''
       = map_of (vacation_requests world2) ''r2''
   \<and> check_vacations [(1, cfg1, day_2021_07_29)] world2 = world2
   \<and> distinct (map fst (vacation_data world6))
   \<and> map_of (vacation_data world6) ''r1'' = Some request1
   \<and> date day_2021_07_29 < date (end_date request1)
   \<and> ''r1'' \<in> shared world6
   \<and> map_of (vacation_data (check_vacations [(1, cfg1, day_2021_07_29)] world6)) ''r1''
       = Some (request1\<lparr>saved_roles := [5]\<rparr>)
   \<and> (\<exists>s. map_of (vacation_requests (check_vacations [(1, cfg1, day_2021_07_29)] world6)) ''r1''
            = Some (request1\<lparr>saved_roles := s\<rparr>))"
proof -
  let ?turns = "[(1::int, cfg1, day_2021_07_29)]"
  have a: "distinct (map fst (vacation_data world7))"
    and b: "calls (check_vacations ?turns world7)
       = calls world7 @ [Add_roles 1 7 [900] Vacation_start, Vacation_log 1 ''start'' ''r1'',
                         Remove_roles 1 8 900 Vacation_end, Vacation_log 1 ''end'' ''r5'']"
    and c: "\<not> wears_role world7 1 7 900 \<and> wears_role (check_vacations ?turns world7) 1 7 900"
    and d: "wears_role world7 1 8 900 \<and> \<not> wears_role (check_vacations ?turns world7) 1 8 900"
    unfolding check_world7 by (simp_all add: world7_def world0_def wears_role_def)
  have r7: "user_id request1 = 7" "user_id request5 = 8"
    "date (start_date request1) = date day_2021_07_29"
    by (simp_all add: request5_def request1_def)
  note gain = no_time_travel [OF a, where guilds = ?turns and g = 1 and u = 7 and r = 900,
      THEN conjunct2, THEN conjunct1, THEN mp, OF c]
  then obtain cfg now rid x where e1: "map_of (vacation_data world7) rid = Some x"
    "user_id x = 7" "status x = Approved"
    "date (start_date x) = date now \<and> vacation_role_id cfg = Some 900
     \<or> date (start_date x) \<noteq> date now \<and> date (end_date x) \<le> date now"
    and e0: "(1, cfg, now) \<in> set ?turns"
    by blast
  from e0 have now: "now = day_2021_07_29" by simp
  from e1(1) have "rid = ''r1'' \<and> x = request1 \<or> rid = ''r5'' \<and> x = request5"
    by (simp add: world7_def world0_def split: if_splits)
  with e1(2) r7 have "x = request1" by auto
  with e1 r7 have "map_of (vacation_data world7) rid = Some x \<and> user_id x = 7
          \<and> status x = Approved \<and> date (start_date x) = date day_2021_07_29"
    by simp
  then have e: "\<exists>rid d. map_of (vacation_data world7) rid = Some d \<and> user_id d = 7
          \<and> status d = Approved \<and> date (start_date d) = date day_2021_07_29"
    by blast
  note loss = no_time_travel [OF a, where guilds = ?turns and g = 1 and u = 8 and r = 900,
      THEN conjunct2, THEN conjunct2, THEN conjunct1, THEN mp, OF d]
  then obtain cfg' now' rid' y where f1: "map_of (vacation_data world7) rid' = Some y"
    "user_id y = 8" "status y = Approved"
    "date (start_date y) \<noteq> date now'" "date (end_date y) \<le> date now'"
    and f0: "(1, cfg', now') \<in> set ?turns"
    by blast
  from f0 have "now' = day_2021_07_29" by simp
  with f1 have "map_of (vacation_data world7) rid' = Some y \<and> user_id y = 8
          \<and> status y = Approved \<and> date (start_date y) \<noteq> date day_2021_07_29
          \<and> date (end_date y) \<le> date day_2021_07_29"
    by simp
  then have f: "\<exists>rid d. map_of (vacation_data world7) rid = Some d \<and> user_id d = 8
          \<and> status d = Approved \<and> date (start_date d) \<noteq> date day_2021_07_29
          \<and> date (end_date d) \<le> date day_2021_07_29"
    by blast
  have g: "distinct (map fst (vacation_data world2))"
    and h: "map_of (vacation_data world2) ''r2'' = Some request2"
    and i: "date day_2021_07_29 < date (start_date request2)"
    and j: "date day_2021_07_29 < date (end_date request2)"
    by (simp_all add: world2_def world0_def request2_def dates_july)
  from i have i': "\<forall>(gid, cfg, now) \<in> set ?turns. date now < date (start_date request2)"
    by simp
  from j have j': "\<not> (\<exists>gid cfg now. (gid, cfg, now) \<in> set ?turns
                    \<and> date (end_date request2) \<le> date now)"
    by simp
  note later = no_time_travel [OF g, where guilds = ?turns and rid = "''r2''" and d = request2,
      THEN conjunct2, THEN conjunct2, THEN conjunct2, THEN conjunct1, THEN mp,
      OF conjI [OF h i']]
  with j' have kl: "map_of (vacation_data (check_vacations ?turns world2)) ''r2'' = Some request2
     \<and> map_of (vacation_requests (check_vacations ?turns world2)) ''r2''
       = map_of (vacation_requests world2) ''r2''"
    by blast
  have idle: "\<forall>(gid, cfg, now) \<in> set ?turns. \<forall>(rid, d) \<in> set (vacation_data world2).
          status d = Approved \<longrightarrow>
          date (start_date d) \<noteq> date now \<and> date now < date (end_date d)"
    by (simp add: world2_def world0_def request2_def dates_july)
  note m = no_time_travel [OF g, where guilds = ?turns,
      THEN conjunct2, THEN conjunct2, THEN conjunct2, THEN conjunct2, THEN conjunct2,
      THEN mp, OF idle]
  have n: "distinct (map fst (vacation_data world6))"
    and o: "map_of (vacation_data world6) ''r1'' = Some request1"
    and p: "date day_2021_07_29 < date (end_date request1)"
    and q: "''r1'' \<in> shared world6"
    by (simp_all add: world6_def world1_def world0_def request1_def dates_july)
  from p have p': "\<forall>(gid, cfg, now) \<in> set ?turns. date now < date (end_date request1)"
    by simp
  have r: "map_of (vacation_data (check_vacations ?turns world6)) ''r1''
       = Some (request1\<lparr>saved_roles := [5]\<rparr>)"
    and r': "map_of (vacation_requests (check_vacations ?turns world6)) ''r1''
       \<noteq> map_of (vacation_requests world6) ''r1''"
    unfolding check_world6 by (simp_all add: world6_def world1_def world0_def request1_def)
  note stay = no_time_travel [OF n, where guilds = ?turns and rid = "''r1''" and d = request1,
      THEN conjunct2, THEN conjunct2, THEN conjunct2, THEN conjunct2, THEN conjunct1,
      THEN mp, OF conjI [OF o p']]
  with r' have s: "\<exists>s. map_of (vacation_requests (check_vacations ?turns world6)) ''r1''
            = Some (request1\<lparr>saved_roles := s\<rparr>)"
    by blast
  show ?thesis
    using a b c d e f g h i j kl m n o p q r s by (intro conjI) (rule TrueI | blast)+
qed
section \<open>The review record in reachable states\<close>

lemma review_None_iff: "review d = None \<longleftrightarrow> reviewed_by d = None \<or> reviewed_at d = None"
  by (simp add: review_def split: option.splits)

lemma store_ok_update:
  "store_ok al \<Longrightarrow> review_matches_status v \<Longrightarrow> store_ok (AList.update k v al)"
  by (induction al) (auto simp add: store_ok_def)

lemma store_ok_delete: "store_ok al \<Longrightarrow> store_ok (AList.delete k al)"
  by (induction al) (auto simp add: store_ok_def)

lemma store_ok_member: "store_ok al \<Longrightarrow> (k, v) \<in> set al \<Longrightarrow> review_matches_status v"
  by (auto simp add: store_ok_def list_all_iff)

lemma stores_ok_log [simp]: "stores_ok (send_vacation_log gid act rid w) = stores_ok w"
  by (simp add: stores_ok_def)

lemma submit_ok:
  "stores_ok w \<Longrightarrow>
   stores_ok (reason_modal_callback now gid cfg author start duration end_d why c posted w)"
  by (simp add: reason_modal_callback_def Let_def stores_ok_def store_ok_update
      review_matches_status_def review_None_iff)

lemma approve_ok: "stores_ok w \<Longrightarrow> stores_ok (snd (approve_vacation now gid reviewer rid comment w))"
  by (simp add: approve_vacation_def Let_def stores_ok_def store_ok_update
      review_matches_status_def review_None_iff split: option.splits)

lemma deny_ok: "stores_ok w \<Longrightarrow> stores_ok (snd (deny_vacation now gid reviewer rid why w))"
  by (simp add: deny_vacation_def Let_def stores_ok_def store_ok_update
      review_matches_status_def review_None_iff split: option.splits)

lemma early_return_ok:
  assumes "stores_ok w" and "review_matches_status d" and "status d = Approved"
  shows "stores_ok (snd (early_return_vacation now gid cfg author rid d w))"
proof -
  have "review_matches_status (d\<lparr>status := Early_return, early_return_at := Some now,
          early_return_by := Some author\<rparr>)"
    using assms(2,3) by (simp add: review_matches_status_def review_None_iff)
  with assms(1) show ?thesis
    by (simp add: stores_ok_def early_return_requests early_return_data store_ok_update
        store_ok_delete)
qed

lemma user_vacations_member:
  "(rid, d) \<in> set (user_vacations uid w) \<Longrightarrow>
   (rid, d) \<in> set (vacation_data w) \<and> status d = Approved"
  by (auto simp add: user_vacations_def)

lemma return_ok:
  assumes "stores_ok w"
  shows "stores_ok (snd (return_from_vacation now gid cfg author w))"
proof (cases "user_vacations author w")
  case Nil
  with assms show ?thesis by (simp add: return_from_vacation_def)
next
  case (Cons x xs)
  obtain rid d where x: "x = (rid, d)" by (cases x)
  show ?thesis
  proof (cases xs)
    case Nil
    with Cons x have "(rid, d) \<in> set (user_vacations author w)" by simp
    then have "(rid, d) \<in> set (vacation_data w)" "status d = Approved"
      by (simp_all add: user_vacations_member)
    with assms have "stores_ok (snd (early_return_vacation now gid cfg author rid d w))"
      by (intro early_return_ok) (auto simp add: stores_ok_def dest: store_ok_member)
    with Cons x Nil show ?thesis by (simp add: return_from_vacation_def)
  next
    case (Cons y ys)
    with \<open>user_vacations author w = x # xs\<close> x assms show ?thesis
      by (simp add: return_from_vacation_def)
  qed
qed

lemma select_ok:
  assumes "stores_ok w0" and "stores_ok w"
  shows "stores_ok (snd (select_callback now gid cfg author (user_vacations author w0) act rid w))"
proof (cases "map_of (user_vacations author w0) rid")
  case None
  with assms(2) show ?thesis by (simp add: select_callback_def)
next
  case (Some d)
  then have "(rid, d) \<in> set (user_vacations author w0)" by (rule map_of_SomeD)
  then have "(rid, d) \<in> set (vacation_data w0)" "status d = Approved"
    by (simp_all add: user_vacations_member)
  with assms have "stores_ok (snd (early_return_vacation now gid cfg author rid d w))"
    by (intro early_return_ok) (auto simp add: stores_ok_def dest: store_ok_member)
  with Some assms(2) show ?thesis by (simp add: select_callback_def)
qed

lemma force_ok:
  assumes "stores_ok w"
  shows "stores_ok (snd (vacation_force now gid cfg author fa target w))"
proof (cases "user_vacations target w")
  case Nil
  with assms show ?thesis by (simp add: vacation_force_def)
next
  case (Cons x xs)
  obtain rid d where x: "x = (rid, d)" by (cases x)
  with Cons have "(rid, d) \<in> set (user_vacations target w)" by simp
  then have d: "(rid, d) \<in> set (vacation_data w)" "status d = Approved"
    by (simp_all add: user_vacations_member)
  with assms have ok: "review_matches_status d"
    by (auto simp add: stores_ok_def dest: store_ok_member)
  show ?thesis
  proof (cases fa)
    case Finish
    with Cons x early_return_ok [OF assms ok d(2), of now gid cfg author rid]
    show ?thesis by (simp add: vacation_force_def)
  next
    case Recall
    have "review_matches_status (d\<lparr>status := Denied, force_recalled := True,
            force_recalled_by := Some author, force_recalled_at := Some now\<rparr>)"
      using ok d(2) by (simp add: review_matches_status_def review_None_iff)
    with Cons x Recall assms show ?thesis
      by (simp add: vacation_force_def Let_def stores_ok_def store_ok_update store_ok_delete)
  qed
qed

lemma lifecycle_item_ok:
  assumes "stores_ok w" and "review_matches_status (snd item)"
  shows "stores_ok (check_vacation_item now gid cfg item w)"
proof -
  obtain rid d where item: "item = (rid, d)" by (cases item)
  have a: "review_matches_status (d\<lparr>saved_roles := s\<rparr>)" for s
    using assms(2) by (simp add: item review_matches_status_def review_None_iff)
  have b: "review_matches_status (d\<lparr>status := Completed\<rparr>)" if "status d = Approved"
    using assms(2) that by (simp add: item review_matches_status_def review_None_iff)
  show ?thesis
    using assms(1) a b
    by (simp add: item check_vacation_item_def Let_def stores_ok_def store_ok_update
        store_ok_delete split: option.splits)
qed

lemma reminder_item_ok:
  assumes "stores_ok w" and "review_matches_status (snd item)"
  shows "stores_ok (check_reminder_item now gid item w)"
proof -
  obtain rid d where item: "item = (rid, d)" by (cases item)
  have a: "review_matches_status (d\<lparr>reminder_sent := True\<rparr>)"
    using assms(2) by (simp add: item review_matches_status_def review_None_iff)
  show ?thesis
    using assms(1) a
    by (simp add: item check_reminder_item_def Let_def stores_ok_def store_ok_update
        split: option.splits)
qed

lemma auto_close_item_ok:
  assumes "stores_ok w" and "review_matches_status (snd item)"
  shows "stores_ok (check_auto_close_item now gid cfg item w)"
proof -
  obtain rid d where item: "item = (rid, d)" by (cases item)
  have a: "review_matches_status (d\<lparr>status := Cancelled, auto_closed := True,
             auto_closed_at := Some now\<rparr>)" if "status d = Pending"
    using assms(2) that by (simp add: item review_matches_status_def review_None_iff)
  show ?thesis
    using assms(1) a
    by (simp add: item check_auto_close_item_def Let_def stores_ok_def store_ok_update)
qed

lemma fold_ok:
  assumes step: "\<And>x w. stores_ok w \<Longrightarrow> review_matches_status (snd x) \<Longrightarrow> stores_ok (f x w)"
  shows "stores_ok w \<Longrightarrow> store_ok xs \<Longrightarrow> stores_ok (fold f xs w)"
proof (induction xs arbitrary: w)
  case Nil
  then show ?case by simp
next
  case (Cons x xs)
  from Cons.prems(2) have "review_matches_status (snd x)" "store_ok xs"
    by (auto simp add: store_ok_def)
  with Cons.IH [of "f x w"] step [of w x] Cons.prems(1) show ?case by simp
qed

lemma check_vacations_ok: "stores_ok w \<Longrightarrow> stores_ok (check_vacations guilds w)"
proof (induction guilds arbitrary: w)
  case Nil
  then show ?case by simp
next
  case (Cons g guilds)
  obtain gid cfg now where g: "g = (gid, cfg, now)" by (cases g)
  have "stores_ok (check_vacations_guild now gid cfg w)"
    unfolding check_vacations_guild_def
    using Cons.prems lifecycle_item_ok
    by (intro fold_ok) (simp_all add: stores_ok_def)
  with Cons.IH show ?case by (simp add: g)
qed

lemma check_reminders_ok: "stores_ok w \<Longrightarrow> stores_ok (check_reminders now gids w)"
proof (induction gids arbitrary: w)
  case Nil
  then show ?case by simp
next
  case (Cons gid gids)
  have "stores_ok (fold (check_reminder_item now gid) (vacation_data w) w)"
    using Cons.prems reminder_item_ok
    by (intro fold_ok) (simp_all add: stores_ok_def)
  with Cons.IH show ?case by simp
qed

lemma check_auto_close_ok: "stores_ok w \<Longrightarrow> stores_ok (check_auto_close now gcs w)"
proof (induction gcs arbitrary: w)
  case Nil
  then show ?case by simp
next
  case (Cons g gcs)
  obtain gid cfg where g: "g = (gid, cfg)" by (cases g)
  have "stores_ok (fold (check_auto_close_item now gid cfg) (vacation_requests w) w)"
    using Cons.prems auto_close_item_ok
    by (intro fold_ok) (simp_all add: stores_ok_def)
  with Cons.IH show ?case by (simp add: g)
qed

lemma reachable_stores_ok: "reachable w \<Longrightarrow> stores_ok w"
proof (induction rule: reachable.induct)
  case (start w)
  then show ?case by (simp add: stores_ok_def store_ok_def)
next
  case (restart w)
  then show ?case by (simp add: stores_ok_def)
next
  case (platform w m g a r s)
  then show ?case by (simp add: stores_ok_def)
qed (simp_all add: submit_ok approve_ok deny_ok return_ok select_ok force_ok
      check_vacations_ok check_reminders_ok check_auto_close_ok)

text \<open>
  C7, amended. In every reachable state, a stored request has no review record if and
  only if its status is pending or cancelled (auto-closed); a request in any other status
  carries its reviewer and decision time.
\<close>

theorem review_absent_iff_pending_or_auto_closed:
  assumes "reachable w"
    and "(rid, d) \<in> set (vacation_requests w) \<or> (rid, d) \<in> set (vacation_data w)"
  shows "review d = None \<longleftrightarrow> status d = Pending \<or> status d = Cancelled"
  using reachable_stores_ok [OF assms(1)] assms(2)
  by (auto simp add: stores_ok_def review_matches_status_def dest: store_ok_member)

lemma reachable_auto_closed_world: "reachable auto_closed_world"
  unfolding auto_closed_world_def first_submission_def
  by (intro reachable.auto_close reachable.submit reachable.start)
     (simp_all add: world0_def)

lemma auto_closed_world_requests:
  "vacation_requests auto_closed_world
   = [(new_request_id 7 (day_2021_07_29 + 100000), auto_closed_request)]"
  by (simp add: auto_closed_world_def first_submission_def reason_modal_callback_def
      check_auto_close_item_def world0_def cfg1_def Let_def auto_closed_request_def
      select_duration_def
      day_2021_07_29_def usec_per_day_def usec_per_hour_def timedelta_days_def
      timedelta_hours_def)

text \<open>
  C7, as the specification states it, fails: a request that the scheduler closed after
  its deadline is reachable, is not pending, and has no review record.
\<close>

theorem auto_closed_without_review_counterexample:
  "reachable auto_closed_world
   \<and> vacation_requests auto_closed_world
       = [(new_request_id 7 (day_2021_07_29 + 100000), auto_closed_request)]
   \<and> status auto_closed_request = Cancelled
   \<and> status auto_closed_request \<noteq> Pending
   \<and> auto_closed auto_closed_request
   \<and> review auto_closed_request = None"
  by (simp add: reachable_auto_closed_world auto_closed_world_requests)
     (simp add: auto_closed_request_def review_def)

theorem review_absent_iff_pending_or_auto_closed_witness:
  "reachable auto_closed_world
   \<and> (new_request_id 7 (day_2021_07_29 + 100000), auto_closed_request)
        \<in> set (vacation_requests auto_closed_world)
   \<and> (review auto_closed_request = None
        \<longleftrightarrow> status auto_closed_request = Pending \<or> status auto_closed_request = Cancelled)
   \<and> status auto_closed_request = Cancelled"
proof -
  have a: "(new_request_id 7 (day_2021_07_29 + 100000), auto_closed_request)
        \<in> set (vacation_requests auto_closed_world)"
    by (simp add: auto_closed_world_requests)
  have b: "status auto_closed_request = Cancelled"
    by (simp add: auto_closed_request_def)
  from review_absent_iff_pending_or_auto_closed
         [OF reachable_auto_closed_world, of "new_request_id 7 (day_2021_07_29 + 100000)"
            auto_closed_request] a
  have "review auto_closed_request = None
        \<longleftrightarrow> status auto_closed_request = Pending \<or> status auto_closed_request = Cancelled"
    by simp
  with a b reachable_auto_closed_world show ?thesis by simp
qed
end
